theory Spec2Isabelle
  imports Complex_Main
begin

section \<open>Python values used by the metadata extraction tool\<close>

text \<open>
  A Python \<open>str\<close> is modelled as a \<open>string\<close> whose characters are the code points
  below 256; \<open>bytes\<close> is the same type. The string methods below follow CPython on that
  range.
\<close>

type_synonym bytes = string
type_synonym path = string

text \<open>\<open>str.lower\<close>: A-Z and the Latin-1 capitals (192-222 without 215) move up by 32.\<close>

definition lower_char :: "char \<Rightarrow> char" where
  "lower_char c =
     (let n = (of_char c :: nat)
      in if (65 \<le> n \<and> n \<le> 90) \<or> (192 \<le> n \<and> n \<le> 222 \<and> n \<noteq> 215)
         then char_of (n + 32) else c)"

definition lower :: "string \<Rightarrow> string" where
  "lower s = map lower_char s"

text \<open>\<open>str.endswith\<close> with one suffix, and with a tuple of suffixes.\<close>

definition endswith :: "string \<Rightarrow> string \<Rightarrow> bool" where
  "endswith s suf = (length suf \<le> length s \<and> drop (length s - length suf) s = suf)"

definition endswith_any :: "string \<Rightarrow> string list \<Rightarrow> bool" where
  "endswith_any s sufs = list_ex (endswith s) sufs"

definition startswith :: "string \<Rightarrow> string \<Rightarrow> bool" where
  "startswith s pre = (take (length pre) s = pre)"

text \<open>\<open>str.isspace\<close> on one character, and \<open>str.strip()\<close>.\<close>

definition is_space :: "char \<Rightarrow> bool" where
  "is_space c =
     (let n = (of_char c :: nat)
      in (9 \<le> n \<and> n \<le> 13) \<or> (28 \<le> n \<and> n \<le> 32) \<or> n = 133 \<or> n = 160)"

definition strip :: "string \<Rightarrow> string" where
  "strip s = rev (dropWhile is_space (rev (dropWhile is_space s)))"

text \<open>\<open>sep.join(xs)\<close>.\<close>

fun join :: "string \<Rightarrow> string list \<Rightarrow> string" where
  "join sep [] = []"
| "join sep [x] = x"
| "join sep (x # y # ys) = x @ sep @ join sep (y # ys)"

text \<open>\<open>os.path.basename\<close> and \<open>os.path.join\<close> with two arguments (POSIX).\<close>

definition basename :: "path \<Rightarrow> string" where
  "basename p = rev (takeWhile (\<lambda>c. c \<noteq> CHR ''/'') (rev p))"

definition path_join :: "path \<Rightarrow> string \<Rightarrow> path" where
  "path_join a b =
     (if startswith b ''/'' then b
      else if a = [] \<or> endswith a ''/'' then a @ b
      else a @ ''/'' @ b)"

text \<open>
  Values decoded from JSON. A dict is an association list read with \<open>map_of\<close>.
\<close>

datatype pyval =
    PNone
  | PBool bool
  | PInt int
  | PFloat rat
  | PStr string
  | PList "pyval list"
  | PDict "(string \<times> pyval) list"

subsection \<open>Exceptions\<close>

text \<open>
  The exceptions the tool can meet, all of them subclasses of \<open>Exception\<close>.
  \<open>RequestsJSONDecodeError\<close> is \<open>requests.exceptions.JSONDecodeError\<close>, which derives from
  both \<open>RequestException\<close> and \<open>ValueError\<close>; \<open>JSONDecodeError\<close> is the one of the
  standard \<open>json\<close> module. Interrupts, which are not subclasses of \<open>Exception\<close>, are outside
  the model.
\<close>

datatype exn =
    FileNotFoundError
  | IsADirectoryError
  | PermissionError
  | UnidentifiedImageError
  | OSError
  | ZeroDivisionError
  | HTTPError
  | ConnectionError
  | Timeout
  | RequestsJSONDecodeError
  | JSONDecodeError
  | ValueError
  | AttributeError
  | GoogleAPIError
  | DefaultCredentialsError
  | TypeError
  | PlainException string

definition is_FileNotFoundError :: "exn \<Rightarrow> bool" where
  "is_FileNotFoundError e = (e = FileNotFoundError)"

definition is_HTTPError :: "exn \<Rightarrow> bool" where
  "is_HTTPError e = (e = HTTPError)"

definition is_RequestException :: "exn \<Rightarrow> bool" where
  "is_RequestException e =
     (e = HTTPError \<or> e = ConnectionError \<or> e = Timeout \<or> e = RequestsJSONDecodeError)"

text \<open>\<open>IOError\<close> is \<open>OSError\<close>, the base class of \<open>RequestException\<close> too.\<close>

definition is_IOError :: "exn \<Rightarrow> bool" where
  "is_IOError e = (e = FileNotFoundError \<or> e = IsADirectoryError \<or> e = PermissionError
     \<or> e = UnidentifiedImageError \<or> e = OSError \<or> is_RequestException e)"

definition is_ValueError :: "exn \<Rightarrow> bool" where
  "is_ValueError e = (e = RequestsJSONDecodeError \<or> e = JSONDecodeError \<or> e = ValueError)"

definition is_Exception :: "exn \<Rightarrow> bool" where
  "is_Exception e = True"

section \<open>The world the tool runs in\<close>

text \<open>
  What \<open>PIL.Image.open\<close> returns for an image file: it reads the header only, which gives
  the size and the mode (\<open>RGB\<close>, \<open>RGBA\<close>, \<open>P\<close>, ...). The pixel data is decoded when it
  is first needed, by \<open>resize\<close> or \<open>save\<close>; \<open>load_error\<close> is the exception that decoding
  raises, if it raises one (a truncated file).
\<close>

record image =
  width :: int
  height :: int
  mode :: string
  load_error :: "exn option"

text \<open>
  A regular file is its raw bytes together with what \<open>PIL.Image.open\<close> makes of them
  (\<open>None\<close> when the bytes are not an image). \<open>NoAccess\<close> is a regular file that cannot be
  opened; a file that can be opened can be read and written. Every existing path is a
  regular file or a directory; a directory holds the names \<open>os.listdir\<close> returns, in that
  order.
\<close>

record filedata =
  raw :: bytes
  picture :: "image option"

datatype node = File filedata | NoAccess | Dir "string list"

text \<open>One label of a label-detection response, and the response.\<close>

record entity_annotation =
  mid :: string
  description :: string

record vision_response =
  error_message :: string
  label_annotations :: "entity_annotation list"

text \<open>
  The HTTP response of the description service: its status code and what
  \<open>response.json()\<close> returns or raises.
\<close>

record http_response =
  status_code :: int
  json_body :: "exn + pyval"

text \<open>
  The state of a run. The two services are oracles, asked with the number of earlier
  calls and the request; \<open>vision_log\<close> and \<open>astica_log\<close> record the requests sent.
  \<open>uploads\<close> holds what the successive \<open>files.upload()\<close> calls of a notebook return
  or raise (a dict from file names to contents), \<open>stdin\<close> the line \<open>input()\<close> returns,
  \<open>vision_client\<close> the exception with which creating the label-detection client fails,
  if it does. Output printed to the console is not modelled.
\<close>

record world =
  environ :: "string \<rightharpoonup> string"
  fs :: "path \<rightharpoonup> node"
  cwd :: path
  colab :: bool
  uploads :: "(exn + (string \<times> filedata) list) list"
  stdin :: string
  vision_client :: "exn option"
  vision_service :: "nat \<Rightarrow> bytes \<Rightarrow> exn + vision_response"
  astica_service :: "nat \<Rightarrow> string \<Rightarrow> string \<Rightarrow> exn + http_response"
  vision_log :: "bytes list"
  astica_log :: "string list"
  downloads :: "path list"

text \<open>
  What \<open>Image.save\<close> does with a loaded image, a file name and a quality. The extension
  of the name selects the format. \<open>Encoded b m\<close>: the encoder writes the bytes \<open>b\<close>, a file
  that opens as an image of the same size in mode \<open>m\<close>. \<open>Refused e\<close>: \<open>save\<close> raises
  \<open>e\<close> before it opens the file for writing, and the file stays as it is (no format is
  registered for the extension: \<open>ValueError\<close>). \<open>Broken e d\<close>: the encoder raises \<open>e\<close>
  after \<open>save\<close> has opened the file for writing, which empties it, and the file is left
  holding \<open>d\<close> (nothing, when the encoder refuses the mode of the image before it
  writes: \<open>OSError\<close>). Formats that store an image at another size than it has (icons)
  are outside the model.
\<close>

datatype save_result =
    Encoded bytes string
  | Refused exn
  | Broken exn filedata

text \<open>
  Library functions the tool calls and does not define: base64 encoding, \<open>repr\<close> of a
  JSON value that is not a string, the encoders of PIL, the rounding of Python's float
  operations (a float is the rational it denotes), and the text of one CSV row.
\<close>

record pylib =
  b64encode :: "bytes \<Rightarrow> string"
  py_repr :: "pyval \<Rightarrow> string"
  pil_encode :: "image \<Rightarrow> path \<Rightarrow> int \<Rightarrow> save_result"
  float_of_int :: "int \<Rightarrow> rat"
  float_div :: "rat \<Rightarrow> rat \<Rightarrow> rat"
  float_mul :: "rat \<Rightarrow> rat \<Rightarrow> rat"
  csv_line :: "string list \<Rightarrow> bytes"

subsection \<open>Programs: state passing with exceptions\<close>

type_synonym 'a prog = "world \<Rightarrow> world \<times> (exn + 'a)"

definition ret :: "'a \<Rightarrow> 'a prog" where
  "ret v w = (w, Inr v)"

definition raise :: "exn \<Rightarrow> 'a prog" where
  "raise e w = (w, Inl e)"

definition lift :: "exn + 'a \<Rightarrow> 'a prog" where
  "lift r w = (w, r)"

definition gets :: "(world \<Rightarrow> 'a) \<Rightarrow> 'a prog" where
  "gets f w = (w, Inr (f w))"

definition seq :: "'a prog \<Rightarrow> ('a \<Rightarrow> 'b prog) \<Rightarrow> 'b prog" where
  "seq m f w = (case m w of (w', Inl e) \<Rightarrow> (w', Inl e) | (w', Inr v) \<Rightarrow> f v w')"

text \<open>
  \<open>try: body except C1: h1 except C2: h2 ...\<close>: the first clause whose class matches
  handles the exception; with no matching clause it propagates.
\<close>

fun handle :: "((exn \<Rightarrow> bool) \<times> (exn \<Rightarrow> 'a prog)) list \<Rightarrow> exn \<Rightarrow> 'a prog" where
  "handle [] e w = (w, Inl e)"
| "handle ((c, h) # hs) e w = (if c e then h e w else handle hs e w)"

definition try_except :: "'a prog \<Rightarrow> ((exn \<Rightarrow> bool) \<times> (exn \<Rightarrow> 'a prog)) list \<Rightarrow> 'a prog" where
  "try_except m hs w = (case m w of (w', Inl e) \<Rightarrow> handle hs e w' | (w', Inr v) \<Rightarrow> (w', Inr v))"

subsection \<open>The file system\<close>

text \<open>
  A relative path is read against the working directory; the empty path names nothing.
  Paths are compared as they are spelled: the file system binds normalised absolute
  paths, and \<open>.\<close>, \<open>..\<close> and symbolic links are not interpreted.
\<close>

definition resolve :: "world \<Rightarrow> path \<Rightarrow> path" where
  "resolve w p = path_join (cwd w) p"

definition lookup :: "world \<Rightarrow> path \<Rightarrow> node option" where
  "lookup w p = (if p = [] then None else fs w (resolve w p))"

definition store :: "path \<Rightarrow> node \<Rightarrow> world \<Rightarrow> world" where
  "store p n w = w\<lparr>fs := (fs w)(resolve w p \<mapsto> n)\<rparr>"

definition path_exists :: "world \<Rightarrow> path \<Rightarrow> bool" where
  "path_exists w p = (lookup w p \<noteq> None)"

definition isdir :: "world \<Rightarrow> path \<Rightarrow> bool" where
  "isdir w p = (case lookup w p of Some (Dir names) \<Rightarrow> True | _ \<Rightarrow> False)"

definition isfile :: "world \<Rightarrow> path \<Rightarrow> bool" where
  "isfile w p = (case lookup w p of Some (File d) \<Rightarrow> True | Some NoAccess \<Rightarrow> True | _ \<Rightarrow> False)"

definition listdir :: "world \<Rightarrow> path \<Rightarrow> string list" where
  "listdir w p = (case lookup w p of Some (Dir names) \<Rightarrow> names | _ \<Rightarrow> [])"

text \<open>\<open>open(p, 'rb').read()\<close>.\<close>

definition read_file :: "path \<Rightarrow> bytes prog" where
  "read_file p w =
     (case lookup w p of
        None \<Rightarrow> (w, Inl FileNotFoundError)
      | Some (Dir names) \<Rightarrow> (w, Inl IsADirectoryError)
      | Some NoAccess \<Rightarrow> (w, Inl PermissionError)
      | Some (File d) \<Rightarrow> (w, Inr (raw d)))"

text \<open>Opening a path for writing creates the file or replaces what it held.\<close>

definition write_file :: "path \<Rightarrow> filedata \<Rightarrow> unit prog" where
  "write_file p d w =
     (if p = [] then (w, Inl FileNotFoundError)
      else case lookup w p of
             Some (Dir names) \<Rightarrow> (w, Inl IsADirectoryError)
           | Some NoAccess \<Rightarrow> (w, Inl PermissionError)
           | _ \<Rightarrow> (store p (File d) w, Inr ()))"

text \<open>Writing more text to a file that is open for writing.\<close>

definition append_file :: "path \<Rightarrow> bytes \<Rightarrow> unit prog" where
  "append_file p b w =
     (case lookup w p of
        Some (File d) \<Rightarrow> (store p (File (d\<lparr>raw := raw d @ b, picture := None\<rparr>)) w, Inr ())
      | _ \<Rightarrow> (w, Inl FileNotFoundError))"

text \<open>\<open>os.remove\<close>.\<close>

definition remove :: "path \<Rightarrow> unit prog" where
  "remove p w =
     (case lookup w p of
        None \<Rightarrow> (w, Inl FileNotFoundError)
      | Some (Dir names) \<Rightarrow> (w, Inl IsADirectoryError)
      | _ \<Rightarrow> (w\<lparr>fs := (fs w)(resolve w p := None)\<rparr>, Inr ()))"

section \<open>The tool\<close>

subsection \<open>Configuration constants\<close>

definition OUTPUT_CSV_FILENAME :: string where
  "OUTPUT_CSV_FILENAME = ''image_metadata.csv''"

definition MAX_IMAGE_WIDTH :: int where
  "MAX_IMAGE_WIDTH = 1024"

definition COMPRESSION_QUALITY :: int where
  "COMPRESSION_QUALITY = 85"

definition is_running_in_colab :: "bool prog" where
  "is_running_in_colab = gets colab"

subsection \<open>Authentication setup\<close>

text \<open>
  \<open>files.upload()\<close> of a notebook: the next answer of the queue, an empty dict after it.
  The copies of the uploaded files that the call itself leaves in the working directory,
  under names of its own choice, are not modelled.
\<close>

definition files_upload :: "(string \<times> filedata) list prog" where
  "files_upload w =
     (case uploads w of [] \<Rightarrow> (w, Inr []) | r # rs \<Rightarrow> (w\<lparr>uploads := rs\<rparr>, r))"

definition setenv :: "string \<Rightarrow> string \<Rightarrow> unit prog" where
  "setenv k v w = (w\<lparr>environ := (environ w)(k \<mapsto> v)\<rparr>, Inr ())"

definition setup_google_credentials :: "bool prog" where
  "setup_google_credentials =
     seq (gets (\<lambda>w. case environ w ''GOOGLE_APPLICATION_CREDENTIALS'' of
                       None \<Rightarrow> False | Some p \<Rightarrow> path_exists w p)) (\<lambda>found.
       if found then ret True
       else seq is_running_in_colab (\<lambda>in_colab.
         if in_colab then
           try_except
             (seq files_upload (\<lambda>uploaded.
                if uploaded = [] then ret False
                else (case uploaded of
                        (fn, d) # rest \<Rightarrow>
                          seq (setenv ''GOOGLE_APPLICATION_CREDENTIALS'' fn) (\<lambda>u. ret True)
                      | [] \<Rightarrow> ret False)))
             [(is_Exception, \<lambda>e. ret False)]
         else ret False))"

subsection \<open>Image processing functions\<close>

text \<open>
  \<open>Image.open\<close>, \<open>Image.resize\<close> and \<open>Image.save\<close>. Both \<open>resize\<close> and \<open>save\<close> decode the
  pixel data first. \<open>resize\<close> then raises \<open>ValueError\<close> unless the requested width and
  height are at least 1. \<open>save\<close> opens the file for writing only when a format is found
  for the name, and an exception of the encoder leaves the file as the encoder left it.
  The tool saves an image to the file it has opened it from, so the file exists before.
\<close>

definition image_open :: "path \<Rightarrow> image prog" where
  "image_open p w =
     (case lookup w p of
        None \<Rightarrow> (w, Inl FileNotFoundError)
      | Some (Dir names) \<Rightarrow> (w, Inl IsADirectoryError)
      | Some NoAccess \<Rightarrow> (w, Inl PermissionError)
      | Some (File d) \<Rightarrow>
          (case picture d of None \<Rightarrow> (w, Inl UnidentifiedImageError) | Some img \<Rightarrow> (w, Inr img)))"

definition resize :: "image \<Rightarrow> int \<times> int \<Rightarrow> exn + image" where
  "resize img sz =
     (case load_error img of
        Some e \<Rightarrow> Inl e
      | None \<Rightarrow>
          if fst sz < 1 \<or> snd sz < 1 then Inl ValueError
          else Inr (img\<lparr>width := fst sz, height := snd sz\<rparr>))"

definition image_save :: "pylib \<Rightarrow> image \<Rightarrow> path \<Rightarrow> int \<Rightarrow> unit prog" where
  "image_save lib img p quality =
     (case load_error img of
        Some e \<Rightarrow> raise e
      | None \<Rightarrow>
          (case pil_encode lib img p quality of
             Refused e \<Rightarrow> raise e
           | Broken e d \<Rightarrow> seq (write_file p d) (\<lambda>u. raise e)
           | Encoded b m \<Rightarrow> write_file p \<lparr>raw = b, picture = Some (img\<lparr>mode := m\<rparr>)\<rparr>))"

text \<open>Float division raises on a zero divisor; \<open>int(x)\<close> truncates towards zero.\<close>

definition truediv :: "pylib \<Rightarrow> rat \<Rightarrow> rat \<Rightarrow> exn + rat" where
  "truediv lib a b = (if b = 0 then Inl ZeroDivisionError else Inr (float_div lib a b))"

definition py_int :: "rat \<Rightarrow> int" where
  "py_int x = (if 0 \<le> x then \<lfloor>x\<rfloor> else \<lceil>x\<rceil>)"

text \<open>
  \<open>compress_image\<close> in two parts: its \<open>try\<close> block, and the function with its \<open>except\<close>
  clauses. The two calls of \<open>os.path.getsize\<close>, on the file just opened and on the file
  just saved, return and only feed the message printed at the end of the block.
\<close>

definition compress_image_try :: "pylib \<Rightarrow> path \<Rightarrow> int \<Rightarrow> int \<Rightarrow> unit prog" where
  "compress_image_try lib image_path max_width quality =
     seq (image_open image_path) (\<lambda>img.
       seq (if width img > max_width then
              seq (lift (truediv lib (float_of_int lib max_width) (float_of_int lib (width img))))
                (\<lambda>width_percent.
                   let height_size = py_int (float_mul lib (float_of_int lib (height img)) width_percent)
                   in lift (resize img (max_width, height_size)))
            else ret img) (\<lambda>img.
         image_save lib img image_path quality))"

definition compress_image :: "pylib \<Rightarrow> path \<Rightarrow> int \<Rightarrow> int \<Rightarrow> unit prog" where
  "compress_image lib image_path max_width quality =
     try_except (compress_image_try lib image_path max_width quality)
       [(is_FileNotFoundError, \<lambda>e. ret ()),
        (is_Exception, \<lambda>e. ret ())]"

text \<open>One call of the label-detection service, recorded in the log.\<close>

definition label_detection :: "bytes \<Rightarrow> vision_response prog" where
  "label_detection content w =
     (w\<lparr>vision_log := vision_log w @ [content]\<rparr>,
      vision_service w (length (vision_log w)) content)"

definition ImageAnnotatorClient :: "unit prog" where
  "ImageAnnotatorClient w = (case vision_client w of Some e \<Rightarrow> (w, Inl e) | None \<Rightarrow> (w, Inr ()))"

definition get_image_tags_from_google :: "path \<Rightarrow> string prog" where
  "get_image_tags_from_google image_path =
     try_except
       (seq ImageAnnotatorClient (\<lambda>client.
        seq (read_file image_path) (\<lambda>content.
        seq (label_detection content) (\<lambda>response.
          if error_message response \<noteq> [] then
            raise (PlainException (''Google Vision API error: '' @ error_message response))
          else
            let labels = label_annotations response;
                google_tags = join '', '' (map description labels)
            in ret (if google_tags \<noteq> [] then google_tags
                    else ''No tags found by Google Vision'')))))
       [(is_Exception, \<lambda>e. ret ''Google Vision tags failed'')]"

definition convert_image_to_base64 :: "pylib \<Rightarrow> path \<Rightarrow> string option prog" where
  "convert_image_to_base64 lib image_path =
     try_except
       (seq (read_file image_path) (\<lambda>data.
          let base64_image = b64encode lib data in ret (Some base64_image)))
       [(is_FileNotFoundError, \<lambda>e. ret None),
        (is_Exception, \<lambda>e. ret None)]"

subsection \<open>The description client\<close>

text \<open>
  One \<open>requests.post\<close> to the description endpoint, recorded in the log; the oracle gets
  the token and the base64 input of the JSON body.
\<close>

definition requests_post :: "string \<Rightarrow> string \<Rightarrow> http_response prog" where
  "requests_post tkn inp w =
     (w\<lparr>astica_log := astica_log w @ [inp]\<rparr>,
      astica_service w (length (astica_log w)) tkn inp)"

text \<open>\<open>Response.raise_for_status\<close>: \<open>HTTPError\<close> for a 4xx or 5xx status.\<close>

definition raise_for_status :: "http_response \<Rightarrow> unit prog" where
  "raise_for_status r =
     (if 400 \<le> status_code r \<and> status_code r < 600 then raise HTTPError else ret ())"

text \<open>\<open>x.get(k, default)\<close>: only a dict has the method.\<close>

definition dict_get :: "pyval \<Rightarrow> string \<Rightarrow> pyval \<Rightarrow> exn + pyval" where
  "dict_get x k dflt =
     (case x of
        PDict kvs \<Rightarrow> Inr (case map_of kvs k of Some v \<Rightarrow> v | None \<Rightarrow> dflt)
      | _ \<Rightarrow> Inl AttributeError)"

fun is_substring :: "string \<Rightarrow> string \<Rightarrow> bool" where
  "is_substring k [] = (k = [])"
| "is_substring k (c # cs) = (startswith (c # cs) k \<or> is_substring k cs)"

text \<open>\<open>k in x\<close> for a string \<open>k\<close>.\<close>

definition py_in :: "string \<Rightarrow> pyval \<Rightarrow> exn + bool" where
  "py_in k x =
     (case x of
        PDict kvs \<Rightarrow> Inr (map_of kvs k \<noteq> None)
      | PList xs \<Rightarrow> Inr (PStr k \<in> set xs)
      | PStr s \<Rightarrow> Inr (is_substring k s)
      | _ \<Rightarrow> Inl TypeError)"

text \<open>\<open>x.strip()\<close>: only a string has the method.\<close>

definition py_strip :: "pyval \<Rightarrow> exn + string" where
  "py_strip x = (case x of PStr s \<Rightarrow> Inr (strip s) | _ \<Rightarrow> Inl AttributeError)"

text \<open>How an f-string renders a value.\<close>

definition py_str :: "pylib \<Rightarrow> pyval \<Rightarrow> string" where
  "py_str lib x = (case x of PStr s \<Rightarrow> s | _ \<Rightarrow> py_repr lib x)"

text \<open>
  The three parts of \<open>get_description_from_astica\<close>: what the \<open>try\<close> block does with the
  decoded JSON, the whole \<open>try\<close> block, and its \<open>except\<close> clauses in the source's order.
\<close>

definition read_astica_result :: "pylib \<Rightarrow> pyval \<Rightarrow> string prog" where
  "read_astica_result lib astica_result =
     seq (lift (dict_get astica_result ''status'' PNone)) (\<lambda>status.
     seq (if status = PStr ''error'' then ret True
          else lift (py_in ''error'' astica_result)) (\<lambda>is_error.
       if is_error then
         seq (lift (dict_get astica_result ''error'' (PStr ''Unknown Astica API error'')))
           (\<lambda>error_msg. ret (''Astica API error: '' @ py_str lib error_msg))
       else
         seq (lift (dict_get astica_result ''caption'' (PStr []))) (\<lambda>caption.
         seq (lift (py_strip caption)) (\<lambda>astica_description.
           ret (if astica_description \<noteq> [] then astica_description
                else ''No description available from Astica'')))))"

definition astica_request :: "pylib \<Rightarrow> string \<Rightarrow> string \<Rightarrow> string prog" where
  "astica_request lib tkn image_base64 =
     seq (requests_post tkn image_base64) (\<lambda>response_astica.
     seq (raise_for_status response_astica) (\<lambda>u.
     seq (lift (json_body response_astica)) (\<lambda>astica_result.
       read_astica_result lib astica_result)))"

definition astica_handlers :: "((exn \<Rightarrow> bool) \<times> (exn \<Rightarrow> string prog)) list" where
  "astica_handlers =
     [(is_HTTPError, \<lambda>e. ret ''Astica API request failed (HTTP error)''),
      (is_RequestException, \<lambda>e. ret ''Astica API request failed (Connection/Request error)''),
      (is_ValueError, \<lambda>e. ret ''Astica API response JSON decoding failed''),
      (is_Exception, \<lambda>e. ret ''Astica description processing failed (Unexpected error)'')]"

definition get_description_from_astica :: "pylib \<Rightarrow> string \<Rightarrow> string prog" where
  "get_description_from_astica lib image_base64 =
     seq (gets (\<lambda>w. environ w ''ASTICA_API_KEY'')) (\<lambda>astica_api_key.
       case astica_api_key of
         None \<Rightarrow> ret ''Astica API key not configured''
       | Some tkn \<Rightarrow>
           if tkn = [] then ret ''Astica API key not configured''
           else try_except (astica_request lib tkn image_base64) astica_handlers)"

subsection \<open>Main processing logic\<close>

text \<open>The metadata of one image is a dict with the keys the source writes.\<close>

type_synonym metadata = "(string \<times> string) list"

definition process_image_metadata :: "pylib \<Rightarrow> path \<Rightarrow> metadata prog" where
  "process_image_metadata lib image_path =
     (let filename = basename image_path in
      seq (compress_image lib image_path MAX_IMAGE_WIDTH COMPRESSION_QUALITY) (\<lambda>u.
      seq (get_image_tags_from_google image_path) (\<lambda>google_tags.
      seq (convert_image_to_base64 lib image_path) (\<lambda>image_base64.
      seq (case image_base64 of
             None \<Rightarrow> ret ''Astica processing skipped (image not available for base64)''
           | Some b \<Rightarrow>
               if b \<noteq> [] then get_description_from_astica lib b
               else ret ''Astica processing skipped (image not available for base64)'')
        (\<lambda>astica_description.
           ret [(''filename'', filename),
                (''description'', astica_description),
                (''tags'', google_tags)])))))"

text \<open>The extensions \<open>main\<close> accepts (the tuple it passes to \<open>endswith\<close>).\<close>

definition IMAGE_EXTENSIONS :: "string list" where
  "IMAGE_EXTENSIONS = [''.png'', ''.jpg'', ''.jpeg'', ''.gif'', ''.bmp'', ''.tiff'']"

text \<open>The scan of a directory in local mode: the loop over \<open>os.listdir\<close>.\<close>

definition scan_directory :: "path \<Rightarrow> string list \<Rightarrow> path list" where
  "scan_directory image_source_path names =
     map (path_join image_source_path)
       (filter (\<lambda>f_name. endswith_any (lower f_name) IMAGE_EXTENSIONS) names)"

text \<open>The loop saving a notebook's uploads to the working directory.\<close>

fun save_uploads :: "path \<Rightarrow> (string \<times> filedata) list \<Rightarrow> path list \<Rightarrow> path list prog" where
  "save_uploads current_dir [] temps = ret temps"
| "save_uploads current_dir ((name, content) # rest) temps =
     (let temp_path = path_join current_dir name in
      seq (try_except
             (seq (write_file temp_path content) (\<lambda>u. ret (temps @ [temp_path])))
             [(is_Exception, \<lambda>e. ret temps)])
        (\<lambda>temps'. save_uploads current_dir rest temps'))"

text \<open>The loop processing all identified images.\<close>

fun process_all :: "pylib \<Rightarrow> path list \<Rightarrow> metadata list \<Rightarrow> metadata list prog" where
  "process_all lib [] processed = ret processed"
| "process_all lib (image_path # rest) processed =
     seq (process_image_metadata lib image_path) (\<lambda>metadata.
       process_all lib rest (processed @ [metadata]))"

text \<open>
  \<open>csv.DictWriter\<close> with its default \<open>extrasaction='raise'\<close> and empty \<open>restval\<close>: a row
  dict with a key that is not a field name raises \<open>ValueError\<close>.
\<close>

definition dict_to_list :: "string list \<Rightarrow> metadata \<Rightarrow> exn + string list" where
  "dict_to_list fieldnames rowdict =
     (let wrong_fields = filter (\<lambda>k. k \<notin> set fieldnames) (map fst rowdict)
      in if wrong_fields \<noteq> [] then Inl ValueError
         else Inr (map (\<lambda>key. case map_of rowdict key of Some v \<Rightarrow> v | None \<Rightarrow> []) fieldnames))"

definition writerow :: "pylib \<Rightarrow> path \<Rightarrow> string list \<Rightarrow> metadata \<Rightarrow> unit prog" where
  "writerow lib p fieldnames rowdict =
     seq (lift (dict_to_list fieldnames rowdict)) (\<lambda>fields. append_file p (csv_line lib fields))"

definition writeheader :: "pylib \<Rightarrow> path \<Rightarrow> string list \<Rightarrow> unit prog" where
  "writeheader lib p fieldnames = writerow lib p fieldnames (zip fieldnames fieldnames)"

fun writerows :: "pylib \<Rightarrow> path \<Rightarrow> string list \<Rightarrow> metadata list \<Rightarrow> unit prog" where
  "writerows lib p fieldnames [] = ret ()"
| "writerows lib p fieldnames (rowdict # rest) =
     seq (writerow lib p fieldnames rowdict) (\<lambda>u. writerows lib p fieldnames rest)"

definition files_download :: "path \<Rightarrow> unit prog" where
  "files_download p w = (w\<lparr>downloads := downloads w @ [p]\<rparr>, Inr ())"

text \<open>The part of \<open>main\<close> that writes the CSV file.\<close>

definition write_csv :: "pylib \<Rightarrow> metadata list \<Rightarrow> unit prog" where
  "write_csv lib processed_images_metadata =
     (if processed_images_metadata \<noteq> [] then
        try_except
          (seq (write_file OUTPUT_CSV_FILENAME \<lparr>raw = [], picture = None\<rparr>) (\<lambda>u.
           let fieldnames = [''Filename'', ''Description'', ''Tags''] in
           seq (writeheader lib OUTPUT_CSV_FILENAME fieldnames) (\<lambda>u.
           seq (writerows lib OUTPUT_CSV_FILENAME fieldnames processed_images_metadata) (\<lambda>u.
           seq is_running_in_colab (\<lambda>in_colab.
             if in_colab then files_download OUTPUT_CSV_FILENAME else ret ())))))
          [(is_IOError, \<lambda>e. ret ()),
           (is_Exception, \<lambda>e. ret ())]
      else ret ())"

text \<open>The part of \<open>main\<close> that removes the temporary files of a notebook session.\<close>

fun cleanup_loop :: "path list \<Rightarrow> unit prog" where
  "cleanup_loop [] = ret ()"
| "cleanup_loop (temp_file_path # rest) =
     seq (gets (\<lambda>w. path_exists w temp_file_path)) (\<lambda>ex.
     seq (if ex then try_except (remove temp_file_path) [(is_Exception, \<lambda>e. ret ())]
          else ret ()) (\<lambda>u.
       cleanup_loop rest))"

definition cleanup :: "path list \<Rightarrow> unit prog" where
  "cleanup temp_image_paths_colab =
     seq is_running_in_colab (\<lambda>in_colab.
       if in_colab \<and> temp_image_paths_colab \<noteq> [] then cleanup_loop temp_image_paths_colab
       else ret ())"

text \<open>\<open>main\<close> from the processing loop on; its value is \<open>processed_images_metadata\<close>.\<close>

definition run_pipeline :: "pylib \<Rightarrow> path list \<Rightarrow> path list \<Rightarrow> metadata list prog" where
  "run_pipeline lib image_paths_to_process temp_image_paths_colab =
     seq (process_all lib image_paths_to_process []) (\<lambda>processed_images_metadata.
     seq (write_csv lib processed_images_metadata) (\<lambda>u.
     seq (cleanup temp_image_paths_colab) (\<lambda>u.
       ret processed_images_metadata)))"

text \<open>
  \<open>main\<close>. Its value is the list \<open>processed_images_metadata\<close> at the point where the
  source returns (empty when it returns before the loop). The warning printed when
  \<open>ASTICA_API_KEY\<close> is unset changes nothing and is left out; \<open>input()\<close>,
  \<open>os.listdir\<close> and the path tests are taken to return. The call of \<open>files.upload()\<close>
  in \<open>main\<close> stands outside every \<open>try\<close>: an exception it raises leaves \<open>main\<close>.
\<close>

definition main :: "pylib \<Rightarrow> metadata list prog" where
  "main lib =
     seq setup_google_credentials (\<lambda>ok.
       if \<not> ok then ret []
       else
         seq is_running_in_colab (\<lambda>in_colab.
           if in_colab then
             seq files_upload (\<lambda>uploaded_images_content.
               if uploaded_images_content = [] then ret []
               else
                 seq (gets cwd) (\<lambda>current_dir.
                 seq (save_uploads current_dir uploaded_images_content [])
                   (\<lambda>temp_image_paths_colab.
                      run_pipeline lib temp_image_paths_colab temp_image_paths_colab)))
           else
             seq (gets (\<lambda>w. strip (stdin w))) (\<lambda>image_source_path.
             seq (gets (\<lambda>w. path_exists w image_source_path)) (\<lambda>ex.
               if \<not> ex then ret []
               else
                 seq (gets (\<lambda>w. isdir w image_source_path)) (\<lambda>is_dir.
                   if is_dir then
                     seq (gets (\<lambda>w. listdir w image_source_path)) (\<lambda>names.
                       let image_paths_to_process = scan_directory image_source_path names
                       in if image_paths_to_process = [] then ret []
                          else run_pipeline lib image_paths_to_process [])
                   else
                     seq (gets (\<lambda>w. isfile w image_source_path)) (\<lambda>is_file.
                       if is_file then
                         (if endswith_any (lower image_source_path) IMAGE_EXTENSIONS
                          then run_pipeline lib [image_source_path] []
                          else ret [])
                       else ret []))))))"

section \<open>Vocabulary of the verification\<close>

text \<open>
  The description key counts as absent when the environment variable is unset or empty
  (the test \<open>if not astica_api_key\<close>).
\<close>

definition key_absent :: "world \<Rightarrow> bool" where
  "key_absent w =
     (environ w ''ASTICA_API_KEY'' = None \<or> environ w ''ASTICA_API_KEY'' = Some [])"

text \<open>
  The label-detection credential resolves without an upload: the variable is set and the
  path exists (the first test of \<open>setup_google_credentials\<close>).
\<close>

definition credentials_found :: "world \<Rightarrow> bool" where
  "credentials_found w =
     (case environ w ''GOOGLE_APPLICATION_CREDENTIALS'' of
        None \<Rightarrow> False | Some p \<Rightarrow> path_exists w p)"

text \<open>Width and height of the image stored at a path, when it is one.\<close>

definition dimensions :: "world \<Rightarrow> path \<Rightarrow> (int \<times> int) option" where
  "dimensions w p =
     (case lookup w p of
        Some (File d) \<Rightarrow> (case picture d of None \<Rightarrow> None | Some img \<Rightarrow> Some (width img, height img))
      | _ \<Rightarrow> None)"

text \<open>
  Saving an image under a name breaks the file: the pixel data decodes, and the encoder
  raises after \<open>save\<close> has opened the file for writing.
\<close>

definition breaks_file :: "pylib \<Rightarrow> image \<Rightarrow> path \<Rightarrow> int \<Rightarrow> bool" where
  "breaks_file lib img p quality =
     (load_error img = None \<and>
      (case pil_encode lib img p quality of Broken e d \<Rightarrow> True | _ \<Rightarrow> False))"

text \<open>
  \<open>rounded u x y\<close>: \<open>y\<close> is \<open>x\<close> up to a relative error of \<open>u\<close>. The float operations that
  \<open>compress_image\<close> performs on an image are accurate to \<open>u\<close> when the three conversions
  from \<open>int\<close> are exact and the quotient and the product are rounded with a relative
  error of at most \<open>u\<close>. For IEEE doubles that is the case with \<open>u\<close> the unit roundoff,
  2 to the power -53, for all sizes below 2 to the power 53.
\<close>

definition rounded :: "rat \<Rightarrow> rat \<Rightarrow> rat \<Rightarrow> bool" where
  "rounded u x y = (\<bar>y - x\<bar> \<le> u * \<bar>x\<bar>)"

definition floats_accurate :: "pylib \<Rightarrow> rat \<Rightarrow> int \<Rightarrow> image \<Rightarrow> bool" where
  "floats_accurate lib u max_width img =
     (let fm = float_of_int lib max_width;
          fw = float_of_int lib (width img);
          fh = float_of_int lib (height img);
          q = float_div lib fm fw
      in 0 \<le> u \<and> u \<le> 1 \<and> fm = of_int max_width \<and> fw = of_int (width img)
         \<and> fh = of_int (height img)
         \<and> rounded u (fm / fw) q \<and> rounded u (fh * q) (float_mul lib fh q))"

text \<open>
  A path can be opened for writing: it is not empty and names neither a directory nor a
  file that cannot be opened.
\<close>

definition writable :: "world \<Rightarrow> path \<Rightarrow> bool" where
  "writable w p =
     (p \<noteq> [] \<and> (case lookup w p of Some (Dir names) \<Rightarrow> False | Some NoAccess \<Rightarrow> False
                  | _ \<Rightarrow> True))"

text \<open>
  \<open>hoare I m Q\<close>: program \<open>m\<close> keeps the state invariant \<open>I\<close>, and a value it returns
  satisfies \<open>Q\<close>. \<open>returns m\<close>: \<open>m\<close> returns a value from every state, it never raises.
\<close>

definition hoare :: "(world \<Rightarrow> bool) \<Rightarrow> 'a prog \<Rightarrow> ('a \<Rightarrow> bool) \<Rightarrow> bool" where
  "hoare I m Q =
     (\<forall>w w' r. I w \<longrightarrow> m w = (w', r) \<longrightarrow> I w' \<and> (case r of Inl e \<Rightarrow> True | Inr v \<Rightarrow> Q v))"

definition returns :: "'a prog \<Rightarrow> bool" where
  "returns m = (\<forall>w. \<exists>w' v. m w = (w', Inr v))"

text \<open>
  The invariant of a run without the description key: the key stays absent and no request
  is added to the log of the description service.
\<close>

definition silent :: "string list \<Rightarrow> world \<Rightarrow> bool" where
  "silent L w = (key_absent w \<and> astica_log w = L)"

text \<open>
  What a run that produces no record leaves as it found it: the file system, the
  downloads, and the session's working directory, mode and input line.
\<close>

definition untouched :: "world \<Rightarrow> world \<Rightarrow> bool" where
  "untouched w w' = (fs w' = fs w \<and> downloads w' = downloads w \<and> cwd w' = cwd w
     \<and> colab w' = colab w \<and> stdin w' = stdin w)"

text \<open>A record whose description is the missing-key or the skipped sentinel.\<close>

definition degraded :: "metadata \<Rightarrow> bool" where
  "degraded m =
     (map_of m ''description'' = Some ''Astica API key not configured'' \<or>
      map_of m ''description'' = Some ''Astica processing skipped (image not available for base64)'')"

subsection \<open>Concrete inputs\<close>

text \<open>
  An instance of the library functions and a small world, used to run the model on
  concrete inputs. The theorems below hold for every instance and every world.
  The sample encoders know the extensions .jpg and .jpeg (JPEG, which stores the modes
  1, L, RGB and CMYK and refuses every other mode before it writes), .png, .bmp and
  .tiff (which keep the mode) and .gif (which stores a palette image). The float
  operations of the instance are exact.
  The world is a local session in \<open>/home\<close>: the directory \<open>pics\<close> lists a JPEG of
  2048 by 1000 pixels and a text file; beside it lie a small PNG, a file that cannot be
  opened, a PNG of 2048 by 1 pixels, and two files named as JPEGs that hold a PNG with
  an alpha channel and a palette image; the directory \<open>mixed\<close> lists a small JPEG, a
  file that cannot be opened and a subdirectory named like an image; the directory
  \<open>docs\<close> lists a text file only. Both services answer, with two labels and with a
  caption.
\<close>

definition sample_encode :: "image \<Rightarrow> path \<Rightarrow> int \<Rightarrow> save_result" where
  "sample_encode img p quality =
     (let name = lower p in
      if endswith_any name [''.jpg'', ''.jpeg''] then
        (if mode img \<in> set [''1'', ''L'', ''RGB'', ''CMYK''] then Encoded ''JFIF'' (mode img)
         else Broken OSError \<lparr>raw = [], picture = None\<rparr>)
      else if endswith name ''.png'' then Encoded ''PNG'' (mode img)
      else if endswith name ''.gif'' then Encoded ''GIF8'' ''P''
      else if endswith name ''.bmp'' then Encoded ''BM'' (mode img)
      else if endswith name ''.tiff'' then Encoded ''II*'' (mode img)
      else Refused ValueError)"

definition sample_lib :: pylib where
  "sample_lib = \<lparr>b64encode = (\<lambda>b. b), py_repr = (\<lambda>v. ''<value>''),
     pil_encode = sample_encode, float_of_int = rat_of_int,
     float_div = (\<lambda>a b. a / b), float_mul = (\<lambda>a b. a * b),
     csv_line = (\<lambda>fields. join '','' fields @ [CHR 0x0D, CHR 0x0A])\<rparr>"

definition sample_world :: world where
  "sample_world = \<lparr>
     environ = [''GOOGLE_APPLICATION_CREDENTIALS'' \<mapsto> ''/key.json'', ''ASTICA_API_KEY'' \<mapsto> ''k''],
     fs = [''/key.json'' \<mapsto> File \<lparr>raw = ''{}'', picture = None\<rparr>,
           ''/home/pics'' \<mapsto> Dir [''a.jpg'', ''notes.txt''],
           ''/home/pics/a.jpg'' \<mapsto>
              File \<lparr>raw = ''JFIF'', picture = Some \<lparr>width = 2048, height = 1000,
                mode = ''RGB'', load_error = None\<rparr>\<rparr>,
           ''/home/pics/notes.txt'' \<mapsto> File \<lparr>raw = ''hello'', picture = None\<rparr>,
           ''/home/thumb.png'' \<mapsto>
              File \<lparr>raw = ''PNG'', picture = Some \<lparr>width = 800, height = 600,
                mode = ''RGB'', load_error = None\<rparr>\<rparr>,
           ''/home/locked.jpg'' \<mapsto> NoAccess,
           ''/home/flat.png'' \<mapsto>
              File \<lparr>raw = ''PNG'', picture = Some \<lparr>width = 2048, height = 1,
                mode = ''RGB'', load_error = None\<rparr>\<rparr>,
           ''/home/alpha.jpg'' \<mapsto>
              File \<lparr>raw = ''PNG'', picture = Some \<lparr>width = 800, height = 600,
                mode = ''RGBA'', load_error = None\<rparr>\<rparr>,
           ''/home/logo.jpeg'' \<mapsto>
              File \<lparr>raw = ''GIF8'', picture = Some \<lparr>width = 640, height = 480,
                mode = ''P'', load_error = None\<rparr>\<rparr>,
           ''/home/mixed'' \<mapsto> Dir [''b.JPG'', ''locked.jpg'', ''album.png''],
           ''/home/mixed/b.JPG'' \<mapsto>
              File \<lparr>raw = ''JFIF'', picture = Some \<lparr>width = 640, height = 480,
                mode = ''RGB'', load_error = None\<rparr>\<rparr>,
           ''/home/mixed/locked.jpg'' \<mapsto> NoAccess,
           ''/home/mixed/album.png'' \<mapsto> Dir [],
           ''/home/docs'' \<mapsto> Dir [''readme.txt''],
           ''/home/docs/readme.txt'' \<mapsto> File \<lparr>raw = ''read me'', picture = None\<rparr>],
     cwd = ''/home'', colab = False, uploads = [], stdin = ''pics '',
     vision_client = None,
     vision_service = (\<lambda>n b. Inr \<lparr>error_message = [],
        label_annotations = [\<lparr>mid = ''m1'', description = ''Cat''\<rparr>,
                             \<lparr>mid = ''m2'', description = ''Pet''\<rparr>]\<rparr>),
     astica_service = (\<lambda>n t i. Inr \<lparr>status_code = 200,
        json_body = Inr (PDict [(''caption'', PStr '' a cat '')])\<rparr>),
     vision_log = [], astica_log = [], downloads = []\<rparr>"

text \<open>
  The same session pointed at the directory \<open>mixed\<close>, and that session without the
  description key.
\<close>

definition mixed_world :: world where
  "mixed_world = sample_world\<lparr>stdin := ''mixed''\<rparr>"

definition keyless_world :: world where
  "keyless_world = sample_world\<lparr>
     environ := [''GOOGLE_APPLICATION_CREDENTIALS'' \<mapsto> ''/key.json''],
     stdin := ''mixed''\<rparr>"

text \<open>
  Two more sessions without the description key: a local one pointed at the single file
  \<open>thumb.png\<close>, and a notebook session in which two files are uploaded, the second
  under the name of the existing directory \<open>mixed\<close>.
\<close>

definition keyless_file_world :: world where
  "keyless_file_world = keyless_world\<lparr>stdin := ''thumb.png''\<rparr>"

definition keyless_notebook_world :: world where
  "keyless_notebook_world = keyless_world\<lparr>
     colab := True,
     uploads := [Inr [(''new.png'', \<lparr>raw = ''PNG'', picture = Some \<lparr>width = 32, height = 32,
                        mode = ''RGB'', load_error = None\<rparr>\<rparr>),
                      (''mixed'', \<lparr>raw = ''PNG'', picture = None\<rparr>)]]\<rparr>"

section \<open>Auxiliary lemmas\<close>

subsection \<open>Programs\<close>

text \<open>
  Unfolding the program combinators, and rules for the two properties of programs:
  keeping an invariant (with a postcondition on the value), and always returning.
\<close>

lemmas prog_defs = ret_def raise_def lift_def gets_def seq_def try_except_def

lemma hoareI:
  "(\<And>w w' r. I w \<Longrightarrow> m w = (w', r) \<Longrightarrow> I w' \<and> (case r of Inl e \<Rightarrow> True | Inr v \<Rightarrow> Q v))
   \<Longrightarrow> hoare I m Q"
  by (simp add: hoare_def)

lemma hoareD:
  "hoare I m Q \<Longrightarrow> I w \<Longrightarrow> m w = (w', r) \<Longrightarrow> I w' \<and> (case r of Inl e \<Rightarrow> True | Inr v \<Rightarrow> Q v)"
  by (simp add: hoare_def)

lemma hoare_ret: "Q v \<Longrightarrow> hoare I (ret v) Q"
  by (simp add: hoare_def ret_def)

lemma hoare_raise: "hoare I (raise e) Q"
  by (simp add: hoare_def raise_def)

lemma hoare_lift: "(\<And>v. r = Inr v \<Longrightarrow> Q v) \<Longrightarrow> hoare I (lift r) Q"
  by (auto simp: hoare_def lift_def split: sum.splits)

lemma hoare_gets: "(\<And>w. I w \<Longrightarrow> Q (f w)) \<Longrightarrow> hoare I (gets f) Q"
  by (simp add: hoare_def gets_def)

lemma hoare_seq:
  assumes "hoare I m P" and "\<And>v. P v \<Longrightarrow> hoare I (f v) Q"
  shows "hoare I (seq m f) Q"
proof (rule hoareI)
  fix w w' r
  assume I: "I w" and s: "seq m f w = (w', r)"
  obtain w1 r1 where m: "m w = (w1, r1)" by (cases "m w")
  from hoareD[OF assms(1) I m] have I1: "I w1" and P: "case r1 of Inl e \<Rightarrow> True | Inr v \<Rightarrow> P v"
    by auto
  show "I w' \<and> (case r of Inl e \<Rightarrow> True | Inr v \<Rightarrow> Q v)"
  proof (cases r1)
    case (Inl e)
    with s m I1 show ?thesis by (auto simp: seq_def)
  next
    case (Inr v)
    with s m have "f v w1 = (w', r)" by (simp add: seq_def)
    with assms(2)[of v] P Inr I1 show ?thesis by (auto dest: hoareD)
  qed
qed

lemma hoare_handle:
  "\<forall>x \<in> set hs. hoare I (snd x e) Q \<Longrightarrow> hoare I (handle hs e) Q"
proof (induction hs)
  case Nil
  then show ?case by (simp add: hoare_def)
next
  case (Cons a hs)
  obtain c h where a: "a = (c, h)" by (cases a)
  have 1: "hoare I (h e) Q" using Cons.prems a by simp
  have 2: "hoare I (handle hs e) Q" using Cons by simp
  show ?case
  proof (rule hoareI)
    fix w w' r
    assume I: "I w" and s: "handle (a # hs) e w = (w', r)"
    show "I w' \<and> (case r of Inl e \<Rightarrow> True | Inr v \<Rightarrow> Q v)"
    proof (cases "c e")
      case True
      with s a have "h e w = (w', r)" by simp
      from hoareD[OF 1 I this] show ?thesis .
    next
      case False
      with s a have "handle hs e w = (w', r)" by simp
      from hoareD[OF 2 I this] show ?thesis .
    qed
  qed
qed

lemma hoare_try:
  assumes "hoare I m Q" and "\<And>e. \<forall>x \<in> set hs. hoare I (snd x e) Q"
  shows "hoare I (try_except m hs) Q"
proof (rule hoareI)
  fix w w' r
  assume I: "I w" and s: "try_except m hs w = (w', r)"
  obtain w1 r1 where m: "m w = (w1, r1)" by (cases "m w")
  from hoareD[OF assms(1) I m] have I1: "I w1" and P: "case r1 of Inl e \<Rightarrow> True | Inr v \<Rightarrow> Q v"
    by auto
  show "I w' \<and> (case r of Inl e \<Rightarrow> True | Inr v \<Rightarrow> Q v)"
  proof (cases r1)
    case (Inl e)
    with s m have "handle hs e w1 = (w', r)" by (simp add: try_except_def)
    with hoareD[OF hoare_handle[OF assms(2)[of e]] I1] show ?thesis by simp
  next
    case (Inr v)
    with s m P I1 show ?thesis by (auto simp: try_except_def)
  qed
qed

lemma hoare_weaken: "hoare I m P \<Longrightarrow> (\<And>v. P v \<Longrightarrow> Q v) \<Longrightarrow> hoare I m Q"
  by (auto simp: hoare_def split: sum.splits)

lemma hoare_state:
  "(\<And>w w' r. I w \<Longrightarrow> m w = (w', r) \<Longrightarrow> I w') \<Longrightarrow> hoare I m (\<lambda>v. True)"
  by (auto simp: hoare_def split: sum.splits)

lemma hoare_if:
  "(c \<Longrightarrow> hoare I a Q) \<Longrightarrow> (\<not> c \<Longrightarrow> hoare I b Q) \<Longrightarrow> hoare I (if c then a else b) Q"
  by simp

lemma hoare_seq_any:
  "hoare I m (\<lambda>v. True) \<Longrightarrow> (\<And>v. hoare I (f v) Q) \<Longrightarrow> hoare I (seq m f) Q"
  by (rule hoare_seq)

lemma hoare_true_ret: "hoare I (ret v) (\<lambda>v. True)"
  by (simp add: hoare_ret)

lemma hoare_true_gets: "hoare I (gets f) (\<lambda>v. True)"
  by (simp add: hoare_gets)

lemma hoare_true_lift: "hoare I (lift r) (\<lambda>v. True)"
  by (simp add: hoare_lift)

lemma returnsD: "returns m \<Longrightarrow> \<exists>w' v. m w = (w', Inr v)"
  by (simp add: returns_def)

lemma returns_ret: "returns (ret v)"
  by (simp add: returns_def ret_def)

lemma returns_gets: "returns (gets f)"
  by (simp add: returns_def gets_def)

lemma returns_seq: "returns m \<Longrightarrow> (\<And>v. returns (f v)) \<Longrightarrow> returns (seq m f)"
  unfolding returns_def seq_def
proof (intro allI)
  fix w
  assume m: "\<forall>w. \<exists>w' v. m w = (w', Inr v)" and f: "\<And>v. \<forall>w. \<exists>w' v'. f v w = (w', Inr v')"
  from m obtain w1 v where 1: "m w = (w1, Inr v)" by blast
  from f[of v] obtain w2 v' where 2: "f v w1 = (w2, Inr v')" by blast
  show "\<exists>w' v. (case m w of (w', Inl e) \<Rightarrow> (w', Inl e) | (w', Inr v) \<Rightarrow> f v w') = (w', Inr v)"
    using 1 2 by simp
qed

lemma handle_catch_all:
  "\<forall>x \<in> set hs. \<forall>e. returns (snd x e) \<Longrightarrow> hs \<noteq> [] \<Longrightarrow> fst (last hs) = is_Exception
   \<Longrightarrow> \<exists>w' v. handle hs e w = (w', Inr v)"
proof (induction hs)
  case Nil
  then show ?case by simp
next
  case (Cons a hs)
  obtain c h where a: "a = (c, h)" by (cases a)
  have h: "returns (h e)" using Cons.prems(1) a by simp
  show ?case
  proof (cases "c e")
    case True
    with a returnsD[OF h, of w] show ?thesis by simp
  next
    case False
    have "hs \<noteq> []"
    proof
      assume "hs = []"
      with Cons.prems(3) a have "c = is_Exception" by simp
      with False show False by (simp add: is_Exception_def)
    qed
    with Cons a False show ?thesis by simp
  qed
qed

lemma returns_try:
  assumes "\<forall>x \<in> set hs. \<forall>e. returns (snd x e)" "hs \<noteq> []" "fst (last hs) = is_Exception"
  shows "returns (try_except m hs)"
  unfolding returns_def
proof
  fix w
  obtain w1 r1 where m: "m w = (w1, r1)" by (cases "m w")
  show "\<exists>w' v. try_except m hs w = (w', Inr v)"
  proof (cases r1)
    case (Inl e)
    with m handle_catch_all[OF assms, of e w1] show ?thesis by (simp add: try_except_def)
  next
    case (Inr v)
    with m show ?thesis by (simp add: try_except_def)
  qed
qed

subsection \<open>Strings and paths\<close>

lemma endswith_iff: "endswith s suf = (\<exists>stem. s = stem @ suf)"
proof
  assume "endswith s suf"
  then have "s = take (length s - length suf) s @ suf"
    by (metis append_take_drop_id endswith_def)
  then show "\<exists>stem. s = stem @ suf" ..
next
  assume "\<exists>stem. s = stem @ suf"
  then show "endswith s suf" by (auto simp: endswith_def)
qed

lemma endswith_lower_iff:
  "endswith (lower f) ext = (\<exists>stem suf. f = stem @ suf \<and> lower suf = ext)"
proof
  assume "endswith (lower f) ext"
  then obtain st where st: "lower f = st @ ext" by (auto simp: endswith_iff)
  have "f = take (length st) f @ drop (length st) f" by simp
  moreover have "lower (drop (length st) f) = ext"
    using st by (metis append_eq_conv_conj drop_map lower_def)
  ultimately show "\<exists>stem suf. f = stem @ suf \<and> lower suf = ext" by blast
next
  assume "\<exists>stem suf. f = stem @ suf \<and> lower suf = ext"
  then show "endswith (lower f) ext" by (auto simp: endswith_iff lower_def)
qed

lemma endswith_any_iff:
  "endswith_any (lower f) exts = (\<exists>ext \<in> set exts. \<exists>stem suf. f = stem @ suf \<and> lower suf = ext)"
  by (simp add: endswith_any_def list_ex_iff endswith_lower_iff)

lemma endswith_last: "endswith s suf \<Longrightarrow> suf \<noteq> [] \<Longrightarrow> last s = last suf"
  by (auto simp: endswith_iff)

lemma txt_not_image: "endswith (lower f) ''.txt'' \<Longrightarrow> \<not> endswith_any (lower f) IMAGE_EXTENSIONS"
  by (auto simp: endswith_any_def IMAGE_EXTENSIONS_def dest!: endswith_last)

lemma jpg_is_image: "endswith (lower f) ''.jpg'' \<Longrightarrow> endswith_any (lower f) IMAGE_EXTENSIONS"
  by (simp add: endswith_any_def IMAGE_EXTENSIONS_def)

lemma basename_after_slash:
  "CHR ''/'' \<notin> set name \<Longrightarrow> basename (stem @ CHR ''/'' # name) = name"
proof -
  assume n: "CHR ''/'' \<notin> set name"
  have "takeWhile (\<lambda>c. c \<noteq> CHR ''/'') (rev name @ CHR ''/'' # rev stem) = rev name"
    using n by (subst takeWhile_append2) auto
  then show ?thesis by (simp add: basename_def)
qed

lemma basename_no_slash: "CHR ''/'' \<notin> set name \<Longrightarrow> basename name = name"
proof -
  assume n: "CHR ''/'' \<notin> set name"
  have "takeWhile (\<lambda>c. c \<noteq> CHR ''/'') (rev name) = rev name"
    using n by (auto simp: takeWhile_eq_all_conv)
  then show ?thesis by (simp only: basename_def rev_rev_ident)
qed

lemma basename_path_join:
  assumes n: "CHR ''/'' \<notin> set name"
  shows "basename (path_join dir name) = name"
proof -
  have ns: "\<not> startswith name ''/''"
    using n by (cases name) (auto simp: startswith_def)
  show ?thesis
  proof (cases "dir = []")
    case True
    with ns n show ?thesis by (simp add: path_join_def basename_no_slash)
  next
    case False
    show ?thesis
    proof (cases "endswith dir ''/''")
      case True
      then obtain stem where "dir = stem @ ''/''" by (auto simp: endswith_iff)
      with ns True n basename_after_slash[of name stem] show ?thesis
        by (simp add: path_join_def)
    next
      case e: False
      with ns False n basename_after_slash[of name dir] show ?thesis
        by (simp add: path_join_def)
    qed
  qed
qed

lemma join_comma_empty: "(join '', '' ds = []) = (ds = [] \<or> ds = [[]])"
  by (induction "'', ''" ds rule: join.induct) auto

subsection \<open>The file system\<close>

lemma lookup_nonempty: "lookup w p = Some n \<Longrightarrow> p \<noteq> []"
  by (auto simp: lookup_def split: if_splits)

lemma lookup_store: "p \<noteq> [] \<Longrightarrow> lookup (store p n w) p = Some n"
  by (simp add: lookup_def store_def resolve_def)

lemma store_twice: "store p n (store p n' w) = store p n w"
  by (simp add: store_def resolve_def)

lemmas sample_defs = sample_world_def sample_lib_def lookup_def resolve_def path_join_def
  startswith_def endswith_def

subsection \<open>The normalizer\<close>

lemma image_save_unfold:
  "lookup w p = Some (File d0) \<Longrightarrow>
   image_save lib img p quality w =
     (case load_error img of
        Some e \<Rightarrow> (w, Inl e)
      | None \<Rightarrow>
          (case pil_encode lib img p quality of
             Refused e \<Rightarrow> (w, Inl e)
           | Broken e d \<Rightarrow> (store p (File d) w, Inl e)
           | Encoded b m \<Rightarrow>
               (store p (File \<lparr>raw = b, picture = Some (img\<lparr>mode := m\<rparr>)\<rparr>) w, Inr ())))"
  by (auto simp: image_save_def prog_defs write_file_def lookup_nonempty
      split: option.splits save_result.splits)

lemma compress_image_try_unfold:
  "lookup w p = Some (File d) \<Longrightarrow> picture d = Some img \<Longrightarrow>
   compress_image_try lib p max_width quality w =
     (if width img > max_width then
        (if float_of_int lib (width img) = 0 then (w, Inl ZeroDivisionError)
         else (case resize img (max_width,
                      py_int (float_mul lib (float_of_int lib (height img))
                        (float_div lib (float_of_int lib max_width) (float_of_int lib (width img))))) of
                 Inl e \<Rightarrow> (w, Inl e)
               | Inr img' \<Rightarrow> image_save lib img' p quality w))
      else image_save lib img p quality w)"
  by (simp add: compress_image_try_def prog_defs image_open_def truediv_def Let_def
      split: sum.splits)

lemma compress_image_try_no_image:
  assumes "\<And>d img. lookup w p = Some (File d) \<Longrightarrow> picture d \<noteq> Some img"
  shows "\<exists>e. compress_image_try lib p max_width quality w = (w, Inl e)"
proof -
  have "\<exists>e. image_open p w = (w, Inl e)"
    using assms by (auto simp: image_open_def split: option.splits node.splits)
  then show ?thesis by (auto simp: compress_image_try_def prog_defs)
qed

lemma compress_image_handlers:
  "compress_image lib p max_width quality w =
     (fst (compress_image_try lib p max_width quality w), Inr ())"
  by (cases "compress_image_try lib p max_width quality w")
     (auto simp: compress_image_def try_except_def ret_def is_Exception_def split: sum.splits)

lemma compress_image_returns:
  "\<exists>w'. compress_image lib p mw q w = (w', Inr ())"
  by (simp add: compress_image_handlers)


lemma image_save_state:
  "lookup w p = Some (File d0) \<Longrightarrow>
   fst (image_save lib img p quality w) = w \<or>
   (\<exists>d. fst (image_save lib img p quality w) = store p (File d) w)"
  by (auto simp: image_save_unfold split: option.splits save_result.splits)

lemma compress_image_try_state:
  "fst (compress_image_try lib p max_width quality w) = w \<or>
   (\<exists>d. fst (compress_image_try lib p max_width quality w) = store p (File d) w)"
proof (cases "\<exists>d img. lookup w p = Some (File d) \<and> picture d = Some img")
  case False
  then have "\<exists>e. compress_image_try lib p max_width quality w = (w, Inl e)"
    by (intro compress_image_try_no_image) auto
  then show ?thesis by auto
next
  case True
  then obtain d img where d: "lookup w p = Some (File d)" "picture d = Some img" by blast
  show ?thesis
    unfolding compress_image_try_unfold[OF d]
    using image_save_state[OF d(1)]
    by (auto split: sum.splits)
qed

lemma compress_image_frame:
  "compress_image lib p mw q w = (w', r) \<Longrightarrow>
     environ w' = environ w \<and> astica_log w' = astica_log w \<and> vision_log w' = vision_log w
     \<and> cwd w' = cwd w \<and> colab w' = colab w \<and> vision_client w' = vision_client w
     \<and> vision_service w' = vision_service w \<and> astica_service w' = astica_service w"
  using compress_image_try_state[of lib p mw q w]
  by (auto simp: compress_image_handlers store_def)

lemma compress_image_keeps_narrow:
  assumes "lookup w p = Some (File d)" "picture d = Some img" "width img \<le> max_width"
    and "\<not> breaks_file lib img p quality"
  shows "dimensions (fst (compress_image lib p max_width quality w)) p
           = Some (width img, height img)"
  using assms lookup_nonempty[OF assms(1)]
  by (auto simp: compress_image_handlers compress_image_try_unfold image_save_unfold
        breaks_file_def dimensions_def lookup_store
      split: option.splits save_result.splits)

lemma compress_image_try_completed:
  assumes "compress_image_try lib p max_width quality w = (w1, Inr ())"
  shows "\<exists>d1 img1. lookup w1 p = Some (File d1) \<and> picture d1 = Some img1
           \<and> width img1 \<le> max_width \<and> load_error img1 = None"
proof (cases "\<exists>d img. lookup w p = Some (File d) \<and> picture d = Some img")
  case False
  then have "\<exists>e. compress_image_try lib p max_width quality w = (w, Inl e)"
    by (intro compress_image_try_no_image) auto
  with assms show ?thesis by auto
next
  case True
  then obtain d img where d: "lookup w p = Some (File d)" "picture d = Some img" by blast
  from assms lookup_nonempty[OF d(1)] show ?thesis
    unfolding compress_image_try_unfold[OF d]
    by (auto simp: image_save_unfold[OF d(1)] resize_def lookup_store
        split: if_splits sum.splits option.splits save_result.splits)
qed

lemma compress_image_narrow_encoded:
  assumes "lookup w p = Some (File d)" "picture d = Some img" "width img \<le> max_width"
    and "load_error img = None" "pil_encode lib img p quality = Encoded b m"
  shows "compress_image lib p max_width quality w =
           (store p (File \<lparr>raw = b, picture = Some (img\<lparr>mode := m\<rparr>)\<rparr>) w, Inr ())"
  using assms
  by (simp add: compress_image_handlers compress_image_try_unfold image_save_unfold)

lemma compress_image_wide_encoded:
  assumes "lookup w p = Some (File d)" "picture d = Some img" "max_width < width img"
    and "load_error img = None" "float_of_int lib (width img) \<noteq> 0"
    and "hs = py_int (float_mul lib (float_of_int lib (height img))
                (float_div lib (float_of_int lib max_width) (float_of_int lib (width img))))"
    and "1 \<le> max_width" "1 \<le> hs"
    and "pil_encode lib (img\<lparr>width := max_width, height := hs\<rparr>) p quality = Encoded b m"
  shows "compress_image lib p max_width quality w =
           (store p (File \<lparr>raw = b,
              picture = Some (img\<lparr>width := max_width, height := hs, mode := m\<rparr>)\<rparr>) w, Inr ())"
  using assms
  by (simp add: compress_image_handlers compress_image_try_unfold image_save_unfold resize_def)

lemma compress_image_wide_flat:
  assumes "lookup w p = Some (File d)" "picture d = Some img" "max_width < width img"
    and "py_int (float_mul lib (float_of_int lib (height img))
                (float_div lib (float_of_int lib max_width) (float_of_int lib (width img)))) < 1"
  shows "compress_image lib p max_width quality w = (w, Inr ())"
  using assms
  by (simp add: compress_image_handlers compress_image_try_unfold resize_def
      split: option.splits)

lemma rounded_bounds:
  assumes "rounded u x y" "0 \<le> x"
  shows "x * (1 - u) \<le> y" and "y \<le> x * (1 + u)"
  using assms by (auto simp: rounded_def abs_if algebra_simps split: if_splits)

lemma scaled_height_bounds:
  fixes H a u q v :: rat
  assumes H: "0 \<le> H" and a: "0 \<le> a" and u: "0 \<le> u" "u \<le> 1"
    and q: "rounded u a q" and v: "rounded u (H * q) v"
  shows "H * a * (1 - u)\<^sup>2 - 1 < of_int (py_int v)" and "of_int (py_int v) \<le> H * a * (1 + u)\<^sup>2"
proof -
  from rounded_bounds[OF q a] have q1: "a * (1 - u) \<le> q" and q2: "q \<le> a * (1 + u)" .
  have q0: "0 \<le> q" using q1 a u by (meson diff_ge_0_iff_ge mult_nonneg_nonneg order_trans)
  have Hq: "0 \<le> H * q" using H q0 by simp
  from rounded_bounds[OF v Hq] have v1: "H * q * (1 - u) \<le> v" and v2: "v \<le> H * q * (1 + u)" .
  have "H * (a * (1 - u)) * (1 - u) \<le> H * q * (1 - u)"
    using q1 H u by (intro mult_right_mono mult_left_mono) auto
  with v1 have lo: "H * a * (1 - u)\<^sup>2 \<le> v" by (simp add: power2_eq_square algebra_simps)
  have "H * q * (1 + u) \<le> H * (a * (1 + u)) * (1 + u)"
    using q2 H u by (intro mult_right_mono mult_left_mono) auto
  with v2 have hi: "v \<le> H * a * (1 + u)\<^sup>2" by (simp add: power2_eq_square algebra_simps)
  have "0 \<le> H * a * (1 - u)\<^sup>2" using H a by simp
  with lo have v0: "0 \<le> v" by simp
  then have pv: "py_int v = \<lfloor>v\<rfloor>" by (simp add: py_int_def)
  show "H * a * (1 - u)\<^sup>2 - 1 < of_int (py_int v)"
    unfolding pv using lo by linarith
  show "of_int (py_int v) \<le> H * a * (1 + u)\<^sup>2"
    unfolding pv using hi by linarith
qed

lemma new_height_within_rounding:
  assumes "floats_accurate lib u max_width img" "0 < max_width" "max_width < width img"
    "0 \<le> height img"
  defines "hs \<equiv> py_int (float_mul lib (float_of_int lib (height img))
                (float_div lib (float_of_int lib max_width) (float_of_int lib (width img))))"
  defines "r \<equiv> (of_int (height img) * of_int max_width / of_int (width img) :: rat)"
  shows "r * (1 - u)\<^sup>2 - 1 < of_int hs \<and> of_int hs \<le> r * (1 + u)\<^sup>2"
proof -
  let ?H = "float_of_int lib (height img)"
  let ?a = "float_of_int lib max_width / float_of_int lib (width img)"
  let ?q = "float_div lib (float_of_int lib max_width) (float_of_int lib (width img))"
  let ?v = "float_mul lib ?H ?q"
  from assms(1) have u: "0 \<le> u" "u \<le> 1"
    and f: "float_of_int lib max_width = of_int max_width"
      "float_of_int lib (width img) = of_int (width img)"
      "float_of_int lib (height img) = of_int (height img)"
    and q: "rounded u ?a ?q"
    and v: "rounded u (?H * ?q) ?v"
    unfolding floats_accurate_def Let_def by blast+
  have H: "0 \<le> ?H" using assms(4) by (simp add: f)
  have a: "0 \<le> ?a" using assms(2,3) by (simp add: f)
  have e: "?H * ?a = r" by (simp add: f r_def)
  note b = scaled_height_bounds[OF H a u q v, unfolded e]
  show ?thesis unfolding hs_def using b by blast
qed

subsection \<open>The tag client\<close>

lemma tags_unfold:
  "get_image_tags_from_google p w =
     (case vision_client w of
        Some e \<Rightarrow> (w, Inr ''Google Vision tags failed'')
      | None \<Rightarrow>
         (case lookup w p of
            Some (File d) \<Rightarrow>
              (let w1 = w\<lparr>vision_log := vision_log w @ [raw d]\<rparr> in
               case vision_service w (length (vision_log w)) (raw d) of
                 Inl e \<Rightarrow> (w1, Inr ''Google Vision tags failed'')
               | Inr response \<Rightarrow>
                   if error_message response \<noteq> [] then (w1, Inr ''Google Vision tags failed'')
                   else (w1, Inr (if join '', '' (map description (label_annotations response)) \<noteq> []
                                  then join '', '' (map description (label_annotations response))
                                  else ''No tags found by Google Vision'')))
          | _ \<Rightarrow> (w, Inr ''Google Vision tags failed'')))"
  by (simp add: get_image_tags_from_google_def prog_defs ImageAnnotatorClient_def read_file_def
        label_detection_def is_Exception_def Let_def
      split: option.splits node.splits sum.splits)

lemma tags_returns:
  "\<exists>w' s. get_image_tags_from_google p w = (w', Inr s) \<and> s \<noteq> []"
  by (auto simp: get_image_tags_from_google_def prog_defs ImageAnnotatorClient_def read_file_def
        label_detection_def is_Exception_def Let_def
      split: option.splits node.splits sum.splits prod.splits if_splits)

lemma tags_frame:
  "get_image_tags_from_google p w = (w', r) \<Longrightarrow>
     environ w' = environ w \<and> fs w' = fs w \<and> astica_log w' = astica_log w
     \<and> cwd w' = cwd w \<and> colab w' = colab w"
  by (auto simp: get_image_tags_from_google_def prog_defs ImageAnnotatorClient_def read_file_def
        label_detection_def is_Exception_def Let_def
      split: option.splits node.splits sum.splits prod.splits if_splits)

subsection \<open>The description client\<close>

lemma convert_unfold:
  "convert_image_to_base64 lib p w =
     (w, Inr (case lookup w p of Some (File d) \<Rightarrow> Some (b64encode lib (raw d)) | _ \<Rightarrow> None))"
  by (simp add: convert_image_to_base64_def prog_defs read_file_def is_FileNotFoundError_def
        is_Exception_def Let_def split: option.splits node.splits)

lemma convert_returns:
  "\<exists>r. convert_image_to_base64 lib p w = (w, Inr r)"
  by (auto simp: convert_image_to_base64_def prog_defs read_file_def is_Exception_def
        is_FileNotFoundError_def Let_def
      split: option.splits node.splits sum.splits prod.splits if_splits)

lemma read_astica_result_frame: "read_astica_result lib x w = (w', r) \<Longrightarrow> w' = w"
  by (cases x) (auto simp: read_astica_result_def prog_defs dict_get_def py_in_def py_strip_def
       split: option.splits pyval.splits if_splits)

lemma read_astica_result_nonempty:
  "read_astica_result lib x w = (w', Inr s) \<Longrightarrow> s \<noteq> []"
  by (cases x) (auto simp: read_astica_result_def prog_defs dict_get_def py_in_def py_strip_def
       split: option.splits pyval.splits if_splits)

lemma read_astica_result_not_dict:
  "(\<And>kvs. x \<noteq> PDict kvs) \<Longrightarrow> read_astica_result lib x w = (w, Inl AttributeError)"
  by (cases x) (auto simp: read_astica_result_def prog_defs dict_get_def)

lemma read_astica_result_error:
  "map_of kvs ''status'' = Some (PStr ''error'') \<or> map_of kvs ''error'' \<noteq> None \<Longrightarrow>
   read_astica_result lib (PDict kvs) w =
     (w, Inr (''Astica API error: '' @
        py_str lib (case map_of kvs ''error'' of Some v \<Rightarrow> v
                    | None \<Rightarrow> PStr ''Unknown Astica API error'')))"
  by (auto simp: read_astica_result_def prog_defs dict_get_def py_in_def split: option.splits)

lemma read_astica_result_caption:
  "map_of kvs ''status'' \<noteq> Some (PStr ''error'') \<Longrightarrow> map_of kvs ''error'' = None \<Longrightarrow>
   read_astica_result lib (PDict kvs) w =
     (w, case map_of kvs ''caption'' of
           None \<Rightarrow> Inr ''No description available from Astica''
         | Some (PStr c) \<Rightarrow>
             Inr (if strip c \<noteq> [] then strip c else ''No description available from Astica'')
         | Some v \<Rightarrow> Inl AttributeError)"
  by (auto simp: read_astica_result_def prog_defs dict_get_def py_in_def py_strip_def strip_def
      split: option.splits pyval.splits)

lemma astica_handlers_total:
  "handle astica_handlers e w =
     (w, Inr (if is_HTTPError e then ''Astica API request failed (HTTP error)''
              else if is_RequestException e then ''Astica API request failed (Connection/Request error)''
              else if is_ValueError e then ''Astica API response JSON decoding failed''
              else ''Astica description processing failed (Unexpected error)''))"
  by (simp add: astica_handlers_def ret_def is_Exception_def)

lemma astica_request_unfold:
  "astica_request lib tkn b w =
     (let w1 = w\<lparr>astica_log := astica_log w @ [b]\<rparr> in
      case astica_service w (length (astica_log w)) tkn b of
        Inl e \<Rightarrow> (w1, Inl e)
      | Inr resp \<Rightarrow>
          if 400 \<le> status_code resp \<and> status_code resp < 600 then (w1, Inl HTTPError)
          else (case json_body resp of
                  Inl e \<Rightarrow> (w1, Inl e)
                | Inr x \<Rightarrow> read_astica_result lib x w1))"
  by (simp add: astica_request_def prog_defs requests_post_def raise_for_status_def Let_def
       split: sum.splits)

lemma astica_request_frame:
  "astica_request lib tkn b w = (w', r) \<Longrightarrow> w' = w\<lparr>astica_log := astica_log w @ [b]\<rparr>"
  by (auto simp: astica_request_unfold Let_def split: sum.splits if_splits
      dest: read_astica_result_frame)

lemma astica_request_nonempty:
  "astica_request lib tkn b w = (w', Inr s) \<Longrightarrow> s \<noteq> []"
  by (auto simp: astica_request_unfold Let_def split: sum.splits if_splits
      dest: read_astica_result_nonempty)

lemma description_unfold:
  "get_description_from_astica lib b w =
     (case environ w ''ASTICA_API_KEY'' of
        None \<Rightarrow> (w, Inr ''Astica API key not configured'')
      | Some tkn \<Rightarrow>
          if tkn = [] then (w, Inr ''Astica API key not configured'')
          else (case astica_request lib tkn b w of
                  (w', Inl e) \<Rightarrow> handle astica_handlers e w'
                | (w', Inr s) \<Rightarrow> (w', Inr s)))"
  by (simp add: get_description_from_astica_def prog_defs split: option.splits)

lemma description_with_key:
  "environ w ''ASTICA_API_KEY'' = Some tkn \<Longrightarrow> tkn \<noteq> [] \<Longrightarrow>
   get_description_from_astica lib b w =
     (case astica_request lib tkn b w of
        (w', Inl e) \<Rightarrow> handle astica_handlers e w'
      | (w', Inr s) \<Rightarrow> (w', Inr s))"
  by (simp add: description_unfold)

lemma description_returns:
  "\<exists>w' s. get_description_from_astica lib b w = (w', Inr s) \<and> s \<noteq> []"
  by (auto simp: description_unfold astica_handlers_total
      split: option.splits sum.splits prod.splits dest: astica_request_nonempty)

lemma description_missing_key:
  "environ w ''ASTICA_API_KEY'' = None \<or> environ w ''ASTICA_API_KEY'' = Some [] \<Longrightarrow>
   get_description_from_astica lib b w = (w, Inr ''Astica API key not configured'')"
  by (auto simp: description_unfold)

lemma description_frame:
  "get_description_from_astica lib b w = (w', r) \<Longrightarrow>
     environ w' = environ w \<and> fs w' = fs w \<and> vision_log w' = vision_log w
     \<and> cwd w' = cwd w \<and> colab w' = colab w"
  by (auto simp: description_unfold astica_handlers_total
      split: option.splits sum.splits prod.splits if_splits dest!: astica_request_frame)

lemma description_blank_caption:
  assumes "environ w ''ASTICA_API_KEY'' = Some tkn" "tkn \<noteq> []"
    and "astica_service w (length (astica_log w)) tkn b = Inr resp"
    and "\<not> (400 \<le> status_code resp \<and> status_code resp < 600)"
    and "json_body resp = Inr (PDict kvs)"
    and "map_of kvs ''status'' \<noteq> Some (PStr ''error'')" "map_of kvs ''error'' = None"
    and "map_of kvs ''caption'' = None \<or> (\<exists>c. map_of kvs ''caption'' = Some (PStr c) \<and> strip c = [])"
  shows "snd (get_description_from_astica lib b w) = Inr ''No description available from Astica''"
proof -
  let ?w1 = "w\<lparr>astica_log := astica_log w @ [b]\<rparr>"
  have "astica_request lib tkn b w = read_astica_result lib (PDict kvs) ?w1"
    using assms(3-5) by (auto simp: astica_request_unfold Let_def)
  also have "\<dots> = (?w1, Inr ''No description available from Astica'')"
    using read_astica_result_caption[OF assms(6,7), of lib ?w1] assms(8) by auto
  finally show ?thesis using assms(1,2) by (simp add: description_with_key)
qed

subsection \<open>One image, and the loop over the images\<close>

lemma process_image_metadata_unfold:
  "process_image_metadata lib p w =
     (case compress_image lib p MAX_IMAGE_WIDTH COMPRESSION_QUALITY w of
        (w1, Inl e) \<Rightarrow> (w1, Inl e)
      | (w1, Inr u) \<Rightarrow>
         (case get_image_tags_from_google p w1 of
            (w2, Inl e) \<Rightarrow> (w2, Inl e)
          | (w2, Inr google_tags) \<Rightarrow>
             (case convert_image_to_base64 lib p w2 of
                (w3, Inl e) \<Rightarrow> (w3, Inl e)
              | (w3, Inr image_base64) \<Rightarrow>
                 (case (case image_base64 of
                          None \<Rightarrow> (w3, Inr ''Astica processing skipped (image not available for base64)'')
                        | Some b \<Rightarrow>
                            if b \<noteq> [] then get_description_from_astica lib b w3
                            else (w3, Inr ''Astica processing skipped (image not available for base64)'')) of
                    (w4, Inl e) \<Rightarrow> (w4, Inl e)
                  | (w4, Inr astica_description) \<Rightarrow>
                      (w4, Inr [(''filename'', basename p),
                                (''description'', astica_description),
                                (''tags'', google_tags)])))))"
  by (simp add: process_image_metadata_def prog_defs Let_def
      split: prod.splits sum.splits option.splits)

lemma process_image_metadata_returns:
  "\<exists>w' d t. process_image_metadata lib p w =
      (w', Inr [(''filename'', basename p), (''description'', d), (''tags'', t)])
      \<and> d \<noteq> [] \<and> t \<noteq> []"
proof -
  obtain w1 where c: "compress_image lib p MAX_IMAGE_WIDTH COMPRESSION_QUALITY w = (w1, Inr ())"
    using compress_image_returns by blast
  obtain w2 t where t: "get_image_tags_from_google p w1 = (w2, Inr t)" "t \<noteq> []"
    using tags_returns by blast
  obtain b where b: "convert_image_to_base64 lib p w2 = (w2, Inr b)"
    using convert_returns by blast
  show ?thesis
  proof (cases "\<exists>s. b = Some s \<and> s \<noteq> []")
    case True
    then obtain s where s: "b = Some s" "s \<noteq> []" by blast
    obtain w4 d where d: "get_description_from_astica lib s w2 = (w4, Inr d)" "d \<noteq> []"
      using description_returns by blast
    show ?thesis using c t b s d by (simp add: process_image_metadata_unfold)
  next
    case False
    then show ?thesis using c t b
      by (cases b) (auto simp: process_image_metadata_unfold)
  qed
qed

lemma process_all_returns:
  "\<exists>w' recs. process_all lib ps acc w = (w', Inr (acc @ recs))
     \<and> map (\<lambda>m. map_of m ''filename'') recs = map (\<lambda>p. Some (basename p)) ps
     \<and> (\<forall>m \<in> set recs. \<exists>d t. m = [(''filename'', the (map_of m ''filename'')), (''description'', d), (''tags'', t)]
            \<and> d \<noteq> [] \<and> t \<noteq> [])"
proof (induction ps arbitrary: acc w)
  case Nil
  then show ?case by (simp add: ret_def)
next
  case (Cons p ps)
  obtain w1 d t where m: "process_image_metadata lib p w =
      (w1, Inr [(''filename'', basename p), (''description'', d), (''tags'', t)])" "d \<noteq> []" "t \<noteq> []"
    using process_image_metadata_returns by blast
  let ?m = "[(''filename'', basename p), (''description'', d), (''tags'', t)]"
  from Cons.IH[of "acc @ [?m]" w1] obtain w' recs where
    r: "process_all lib ps (acc @ [?m]) w1 = (w', Inr ((acc @ [?m]) @ recs))"
       "map (\<lambda>m. map_of m ''filename'') recs = map (\<lambda>p. Some (basename p)) ps"
       "\<forall>m \<in> set recs. \<exists>d t. m = [(''filename'', the (map_of m ''filename'')), (''description'', d), (''tags'', t)]
            \<and> d \<noteq> [] \<and> t \<noteq> []"
    by blast
  show ?case
    apply (rule exI[of _ w'], rule exI[of _ "?m # recs"])
    using m r by (simp add: seq_def)
qed

subsection \<open>The export and the clean-up\<close>

lemma write_csv_returns: "returns (write_csv lib recs)"
  unfolding write_csv_def
  by (auto intro!: returns_try returns_ret)

lemma cleanup_loop_returns: "returns (cleanup_loop ts)"
  by (induction ts) (auto intro!: returns_ret returns_seq returns_gets returns_try)

lemma cleanup_returns: "returns (cleanup ts)"
  unfolding cleanup_def is_running_in_colab_def
  by (auto intro!: returns_seq returns_gets returns_ret cleanup_loop_returns)

lemma dict_to_list_header:
  "dict_to_list [''Filename'', ''Description'', ''Tags'']
     [(''Filename'', ''Filename''), (''Description'', ''Description''), (''Tags'', ''Tags'')]
   = Inr [''Filename'', ''Description'', ''Tags'']"
  by (simp add: dict_to_list_def)

lemma dict_to_list_record:
  "dict_to_list [''Filename'', ''Description'', ''Tags'']
     [(''filename'', f), (''description'', d), (''tags'', t)] = Inl ValueError"
  by (simp add: dict_to_list_def)

lemma write_csv_header_only:
  assumes "lookup w OUTPUT_CSV_FILENAME = None \<or> (\<exists>fd. lookup w OUTPUT_CSV_FILENAME = Some (File fd))"
  shows "write_csv lib ([(''filename'', f), (''description'', d), (''tags'', t)] # rest) w =
           (store OUTPUT_CSV_FILENAME
              (File \<lparr>raw = csv_line lib [''Filename'', ''Description'', ''Tags''], picture = None\<rparr>) w,
            Inr ())"
proof -
  let ?w1 = "store OUTPUT_CSV_FILENAME (File \<lparr>raw = [], picture = None\<rparr>) w"
  let ?w2 = "store OUTPUT_CSV_FILENAME
              (File \<lparr>raw = csv_line lib [''Filename'', ''Description'', ''Tags''], picture = None\<rparr>) w"
  have ne: "OUTPUT_CSV_FILENAME \<noteq> []" by (simp add: OUTPUT_CSV_FILENAME_def)
  have 1: "write_file OUTPUT_CSV_FILENAME \<lparr>raw = [], picture = None\<rparr> w = (?w1, Inr ())"
    using assms ne by (auto simp: write_file_def)
  have 2: "writeheader lib OUTPUT_CSV_FILENAME [''Filename'', ''Description'', ''Tags''] ?w1
      = (?w2, Inr ())"
    using ne
    by (simp add: writeheader_def writerow_def dict_to_list_header prog_defs append_file_def
        lookup_store store_twice)
  have 3: "writerows lib OUTPUT_CSV_FILENAME [''Filename'', ''Description'', ''Tags'']
        ([(''filename'', f), (''description'', d), (''tags'', t)] # rest) ?w2 = (?w2, Inl ValueError)"
    by (simp add: writerow_def dict_to_list_record prog_defs)
  show ?thesis
    using 1 2 3
    by (simp add: write_csv_def prog_defs Let_def is_IOError_def is_RequestException_def
        is_Exception_def)
qed

lemma run_pipeline_returns:
  "\<exists>w' recs. run_pipeline lib ps ts w = (w', Inr recs)
     \<and> map (\<lambda>m. map_of m ''filename'') recs = map (\<lambda>p. Some (basename p)) ps"
proof -
  from process_all_returns[of lib ps "[]" w] obtain w1 recs where
    1: "process_all lib ps [] w = (w1, Inr recs)"
       "map (\<lambda>m. map_of m ''filename'') recs = map (\<lambda>p. Some (basename p)) ps"
    by auto
  obtain w2 where 2: "write_csv lib recs w1 = (w2, Inr ())"
    using returnsD[OF write_csv_returns, of lib recs w1] by auto
  obtain w3 where 3: "cleanup ts w2 = (w3, Inr ())"
    using returnsD[OF cleanup_returns, of ts w2] by auto
  show ?thesis using 1 2 3 by (simp add: run_pipeline_def seq_def ret_def)
qed

lemma run_pipeline_records:
  "\<exists>w' recs. run_pipeline lib ps ts w = (w', Inr recs)
     \<and> map (\<lambda>m. map_of m ''filename'') recs = map (\<lambda>p. Some (basename p)) ps
     \<and> (\<forall>m \<in> set recs. \<exists>d t. m = [(''filename'', the (map_of m ''filename'')),
            (''description'', d), (''tags'', t)] \<and> d \<noteq> [] \<and> t \<noteq> [])"
proof -
  from process_all_returns[of lib ps "[]" w] obtain w1 recs where
    1: "process_all lib ps [] w = (w1, Inr recs)"
       "map (\<lambda>m. map_of m ''filename'') recs = map (\<lambda>p. Some (basename p)) ps"
       "\<forall>m \<in> set recs. \<exists>d t. m = [(''filename'', the (map_of m ''filename'')),
            (''description'', d), (''tags'', t)] \<and> d \<noteq> [] \<and> t \<noteq> []"
    by auto
  obtain w2 where 2: "write_csv lib recs w1 = (w2, Inr ())"
    using returnsD[OF write_csv_returns, of lib recs w1] by auto
  obtain w3 where 3: "cleanup ts w2 = (w3, Inr ())"
    using returnsD[OF cleanup_returns, of ts w2] by auto
  show ?thesis using 1 2 3 by (simp add: run_pipeline_def seq_def ret_def)
qed

lemma run_pipeline_nothing: "run_pipeline lib [] [] w = (w, Inr [])"
  by (simp add: run_pipeline_def write_csv_def cleanup_def prog_defs is_running_in_colab_def)

lemma run_pipeline_some:
  "ps \<noteq> [] \<Longrightarrow> run_pipeline lib ps ts w \<noteq> (w', Inr [])"
proof
  assume ps: "ps \<noteq> []" and r: "run_pipeline lib ps ts w = (w', Inr [])"
  from run_pipeline_returns[of lib ps ts w] r
  have "map (\<lambda>p. Some (basename p)) ps = []" by auto
  with ps show False by simp
qed

subsection \<open>The main function\<close>

lemma setup_found:
  "credentials_found w \<Longrightarrow> setup_google_credentials w = (w, Inr True)"
  by (simp add: setup_google_credentials_def credentials_found_def prog_defs)

lemma setup_local:
  "\<not> colab w \<Longrightarrow> setup_google_credentials w = (w, Inr (credentials_found w))"
  by (simp add: setup_google_credentials_def credentials_found_def prog_defs
        is_running_in_colab_def)

lemma setup_returns: "returns setup_google_credentials"
  unfolding setup_google_credentials_def is_running_in_colab_def
  by (intro returns_seq returns_gets)
     (auto intro!: returns_ret returns_seq returns_gets returns_try)

lemma main_aborts:
  "setup_google_credentials w = (w1, Inr False) \<Longrightarrow> main lib w = (w1, Inr [])"
  by (simp add: main_def seq_def ret_def)

lemma main_after_setup:
  assumes "setup_google_credentials w = (w1, Inr ok)" "\<not> colab w1"
  shows "main lib w =
          (if \<not> ok then (w1, Inr [])
           else if \<not> path_exists w1 (strip (stdin w1)) then (w1, Inr [])
           else if isdir w1 (strip (stdin w1)) then
             (if scan_directory (strip (stdin w1)) (listdir w1 (strip (stdin w1))) = []
              then (w1, Inr [])
              else run_pipeline lib
                     (scan_directory (strip (stdin w1)) (listdir w1 (strip (stdin w1)))) [] w1)
           else if isfile w1 (strip (stdin w1)) then
             (if endswith_any (lower (strip (stdin w1))) IMAGE_EXTENSIONS
              then run_pipeline lib [strip (stdin w1)] [] w1
              else (w1, Inr []))
           else (w1, Inr []))"
  using assms
  by (simp add: main_def prog_defs is_running_in_colab_def Let_def if_distribR)

lemma main_local_directory:
  assumes "credentials_found w" "\<not> colab w" "lookup w (strip (stdin w)) = Some (Dir names)"
  shows "main lib w =
           (if scan_directory (strip (stdin w)) names = [] then (w, Inr [])
            else run_pipeline lib (scan_directory (strip (stdin w)) names) [] w)"
  using assms
  by (simp add: main_def prog_defs setup_found is_running_in_colab_def path_exists_def
        isdir_def listdir_def Let_def)

lemma main_local_directory_records:
  assumes "credentials_found w" "\<not> colab w" "lookup w (strip (stdin w)) = Some (Dir names)"
  shows "\<exists>w' recs. main lib w = (w', Inr recs)
           \<and> map (\<lambda>m. map_of m ''filename'') recs =
               map (\<lambda>p. Some (basename p)) (scan_directory (strip (stdin w)) names)"
proof (cases "scan_directory (strip (stdin w)) names = []")
  case True
  with main_local_directory[OF assms, of lib] show ?thesis by simp
next
  case False
  with main_local_directory[OF assms, of lib]
    run_pipeline_returns[of lib "scan_directory (strip (stdin w)) names" "[]" w]
  show ?thesis by simp
qed

lemma main_one_image:
  assumes "credentials_found w" "\<not> colab w" "lookup w (strip (stdin w)) = Some (Dir names)"
    and "scan_directory (strip (stdin w)) names = [p]"
  shows "\<exists>w' d t. main lib w =
           (w', Inr [[(''filename'', basename p), (''description'', d), (''tags'', t)]])"
proof -
  from run_pipeline_records[of lib "[p]" "[]" w] obtain w' recs where
    r: "run_pipeline lib [p] [] w = (w', Inr recs)"
       "map (\<lambda>m. map_of m ''filename'') recs = [Some (basename p)]"
       "\<forall>m \<in> set recs. \<exists>d t. m = [(''filename'', the (map_of m ''filename'')),
            (''description'', d), (''tags'', t)] \<and> d \<noteq> [] \<and> t \<noteq> []"
    by auto
  from r(2) obtain m where m: "recs = [m]" "map_of m ''filename'' = Some (basename p)"
    by (cases recs) auto
  with r(3) obtain d t where "m = [(''filename'', basename p), (''description'', d), (''tags'', t)]"
    by auto
  with r(1) m main_local_directory[OF assms(1-3), of lib] assms(4) show ?thesis by auto
qed

lemma main_local_returns:
  assumes "\<not> colab w"
  shows "\<exists>w' recs. main lib w = (w', Inr recs)"
  unfolding main_after_setup[OF setup_local[OF assms] assms]
  using run_pipeline_returns[of lib "scan_directory (strip (stdin w)) (listdir w (strip (stdin w)))" "[]" w]
    run_pipeline_returns[of lib "[strip (stdin w)]" "[]" w]
  by auto

lemma save_uploads_result:
  "save_uploads dir ups ts w = (w', r) \<Longrightarrow>
     \<exists>more. r = Inr (ts @ more) \<and> (more = [] \<longrightarrow> w' = w)"
proof (induction ups arbitrary: ts w)
  case Nil
  then have "r = Inr (ts @ []) \<and> w' = w" by (auto simp: ret_def)
  then show ?case by blast
next
  case (Cons a ups)
  obtain name content where a: "a = (name, content)" by (cases a)
  let ?p = "path_join dir name"
  obtain w1 r1 where wf: "write_file ?p content w = (w1, r1)" by (cases "write_file ?p content w")
  show ?case
  proof (cases r1)
    case (Inl e)
    with wf have w1: "w1 = w"
      by (auto simp: write_file_def split: if_splits option.splits node.splits)
    from Cons.prems a wf Inl w1 have "save_uploads dir ups ts w = (w', r)"
      by (simp add: Let_def prog_defs is_Exception_def)
    from Cons.IH[OF this] show ?thesis .
  next
    case (Inr u)
    from Cons.prems a wf Inr have "save_uploads dir ups (ts @ [?p]) w1 = (w', r)"
      by (simp add: Let_def prog_defs)
    from Cons.IH[OF this] obtain more where "r = Inr ((ts @ [?p]) @ more)" by blast
    then have "r = Inr (ts @ (?p # more))" by simp
    then show ?thesis by blast
  qed
qed

text \<open>The three ways in which \<open>main\<close> finds its images, once the credentials are set up.\<close>

lemma write_file_writable:
  "writable w p \<Longrightarrow> write_file p d w = (store p (File d) w, Inr ())"
  by (auto simp: writable_def write_file_def split: option.splits node.splits)

lemma write_file_not_writable:
  "\<not> writable w p \<Longrightarrow> \<exists>e. write_file p d w = (w, Inl e)"
  by (auto simp: writable_def write_file_def split: option.splits node.splits)

lemma writable_store:
  "writable w p \<Longrightarrow> writable (store p (File d) w) q = writable w q"
  by (auto simp: writable_def lookup_def store_def resolve_def split: option.splits node.splits)

lemma save_uploads_paths:
  "\<exists>w'. save_uploads dir ups ts w =
     (w', Inr (ts @ map (path_join dir)
                 (filter (\<lambda>name. writable w (path_join dir name)) (map fst ups))))"
proof (induction ups arbitrary: ts w)
  case Nil
  show ?case by (simp add: ret_def)
next
  case (Cons a ups)
  obtain name content where a: "a = (name, content)" by (cases a)
  let ?p = "path_join dir name"
  show ?case
  proof (cases "writable w ?p")
    case True
    let ?w1 = "store ?p (File content) w"
    from Cons.IH[of "ts @ [?p]" ?w1] obtain w' where
      "save_uploads dir ups (ts @ [?p]) ?w1 =
         (w', Inr ((ts @ [?p]) @ map (path_join dir)
                 (filter (\<lambda>name. writable ?w1 (path_join dir name)) (map fst ups))))"
      by blast
    with True show ?thesis
      by (simp add: a Let_def prog_defs write_file_writable writable_store)
  next
    case False
    from write_file_not_writable[OF False, of content] obtain e where
      e: "write_file ?p content w = (w, Inl e)" by blast
    from Cons.IH[of ts w] obtain w' where
      "save_uploads dir ups ts w =
         (w', Inr (ts @ map (path_join dir)
                 (filter (\<lambda>name. writable w (path_join dir name)) (map fst ups))))"
      by blast
    with False e show ?thesis
      by (simp add: a Let_def prog_defs is_Exception_def)
  qed
qed

lemma main_single_file:
  assumes "setup_google_credentials w = (w1, Inr True)" "\<not> colab w1"
    and "isfile w1 (strip (stdin w1))"
    and "endswith_any (lower (strip (stdin w1))) IMAGE_EXTENSIONS"
  shows "main lib w = run_pipeline lib [strip (stdin w1)] [] w1"
proof -
  from assms(3) have "path_exists w1 (strip (stdin w1))" "\<not> isdir w1 (strip (stdin w1))"
    by (auto simp: isfile_def path_exists_def isdir_def split: option.splits node.splits)
  with main_after_setup[OF assms(1,2), of lib] assms(3,4) show ?thesis by simp
qed

lemma main_directory:
  assumes "setup_google_credentials w = (w1, Inr True)" "\<not> colab w1"
    and "lookup w1 (strip (stdin w1)) = Some (Dir names)"
  shows "main lib w =
           (if scan_directory (strip (stdin w1)) names = [] then (w1, Inr [])
            else run_pipeline lib (scan_directory (strip (stdin w1)) names) [] w1)"
  using main_after_setup[OF assms(1,2), of lib] assms(3)
  by (simp add: path_exists_def isdir_def listdir_def)

lemma main_notebook:
  assumes "setup_google_credentials w = (w1, Inr True)" "colab w1"
    and "files_upload w1 = (w2, Inr ups)"
  shows "main lib w =
           (if ups = [] then (w2, Inr [])
            else seq (save_uploads (cwd w2) ups [])
                   (\<lambda>temps. run_pipeline lib temps temps) w2)"
  using assms
  by (simp add: main_def prog_defs is_running_in_colab_def)

lemma run_pipeline_one:
  "\<exists>w' d t. run_pipeline lib [p] ts w =
     (w', Inr [[(''filename'', basename p), (''description'', d), (''tags'', t)]])"
proof -
  from run_pipeline_records[of lib "[p]" ts w] obtain w' recs where
    r: "run_pipeline lib [p] ts w = (w', Inr recs)"
       "map (\<lambda>m. map_of m ''filename'') recs = [Some (basename p)]"
       "\<forall>m \<in> set recs. \<exists>d t. m = [(''filename'', the (map_of m ''filename'')),
            (''description'', d), (''tags'', t)] \<and> d \<noteq> [] \<and> t \<noteq> []"
    by auto
  from r(2) obtain m where m: "recs = [m]" "map_of m ''filename'' = Some (basename p)"
    by (cases recs) auto
  with r(3) obtain d t where "m = [(''filename'', basename p), (''description'', d), (''tags'', t)]"
    by auto
  with r(1) m show ?thesis by auto
qed

lemma main_notebook_records:
  assumes "setup_google_credentials w = (w1, Inr True)" "colab w1"
    and "files_upload w1 = (w2, Inr ups)"
  shows "\<exists>w' recs. main lib w = (w', Inr recs) \<and>
           map (\<lambda>m. map_of m ''filename'') recs =
             map (\<lambda>name. Some (basename (path_join (cwd w2) name)))
               (filter (\<lambda>name. writable w2 (path_join (cwd w2) name)) (map fst ups))"
proof (cases "ups = []")
  case True
  with main_notebook[OF assms, of lib] show ?thesis by simp
next
  case False
  let ?temps = "map (path_join (cwd w2))
                 (filter (\<lambda>name. writable w2 (path_join (cwd w2) name)) (map fst ups))"
  from save_uploads_paths[of "cwd w2" ups "[]" w2] obtain w3 where
    s: "save_uploads (cwd w2) ups [] w2 = (w3, Inr ?temps)" by auto
  from run_pipeline_returns[of lib ?temps ?temps w3] obtain w' recs where
    r: "run_pipeline lib ?temps ?temps w3 = (w', Inr recs)"
       "map (\<lambda>m. map_of m ''filename'') recs = map (\<lambda>p. Some (basename p)) ?temps"
    by blast
  from main_notebook[OF assms, of lib] False s r(1)
  have "main lib w = (w', Inr recs)" by (simp add: seq_def)
  with r(2) show ?thesis by (simp add: comp_def)
qed

lemma main_directory_records:
  assumes "setup_google_credentials w = (w1, Inr True)" "\<not> colab w1"
    and "lookup w1 (strip (stdin w1)) = Some (Dir names)"
  shows "\<exists>w' recs. main lib w = (w', Inr recs)
           \<and> map (\<lambda>m. map_of m ''filename'') recs =
               map (\<lambda>p. Some (basename p)) (scan_directory (strip (stdin w1)) names)"
proof (cases "scan_directory (strip (stdin w1)) names = []")
  case True
  with main_directory[OF assms, of lib] show ?thesis by simp
next
  case False
  with main_directory[OF assms, of lib]
    run_pipeline_returns[of lib "scan_directory (strip (stdin w1)) names" "[]" w1]
  show ?thesis by simp
qed

subsection \<open>A run without the description key\<close>

text \<open>The invariant \<open>silent\<close> holds through every step of a run.\<close>

lemma silent_store: "silent L (store p n w) = silent L w"
  by (simp add: silent_def key_absent_def store_def)

lemma silent_compress: "hoare (silent L) (compress_image lib p mw q) (\<lambda>v. True)"
  by (rule hoare_state) (auto simp: silent_def key_absent_def dest!: compress_image_frame)

lemma silent_tags: "hoare (silent L) (get_image_tags_from_google p) (\<lambda>t. True)"
  by (rule hoare_state) (auto simp: silent_def key_absent_def dest!: tags_frame)

lemma silent_convert: "hoare (silent L) (convert_image_to_base64 lib p) (\<lambda>t. True)"
  using convert_returns[of lib p] by (intro hoare_state) (metis prod.inject)

lemma silent_description:
  "hoare (silent L) (get_description_from_astica lib b) (\<lambda>d. d = ''Astica API key not configured'')"
  by (rule hoareI) (auto simp: silent_def key_absent_def description_unfold)

lemma silent_describe_or_skip:
  "hoare (silent L)
     (case image_base64 of
        None \<Rightarrow> ret ''Astica processing skipped (image not available for base64)''
      | Some b \<Rightarrow>
          if b \<noteq> [] then get_description_from_astica lib b
          else ret ''Astica processing skipped (image not available for base64)'')
     (\<lambda>d. d = ''Astica API key not configured'' \<or>
          d = ''Astica processing skipped (image not available for base64)'')"
proof (cases image_base64)
  case None
  then show ?thesis by (simp add: hoare_ret)
next
  case (Some b)
  show ?thesis
  proof (cases "b = []")
    case True
    with Some show ?thesis by (simp add: hoare_ret)
  next
    case False
    with Some show ?thesis
      by simp (rule hoare_weaken[OF silent_description], simp)
  qed
qed

lemma silent_process: "hoare (silent L) (process_image_metadata lib p) degraded"
  unfolding process_image_metadata_def Let_def
  by (intro hoare_seq_any silent_compress silent_tags silent_convert
        hoare_seq[OF silent_describe_or_skip] hoare_ret) (auto simp: degraded_def)

lemma silent_process_all:
  "list_all degraded acc \<Longrightarrow> hoare (silent L) (process_all lib ps acc) (list_all degraded)"
proof (induction ps arbitrary: acc)
  case Nil
  then show ?case by (simp add: hoare_ret)
next
  case (Cons p ps)
  show ?case
    by (simp, rule hoare_seq[OF silent_process]) (rule Cons.IH, simp add: Cons.prems)
qed

lemma silent_files_upload: "hoare (silent L) files_upload (\<lambda>v. True)"
  by (rule hoare_state) (auto simp: files_upload_def silent_def key_absent_def split: list.splits)

lemma silent_setenv:
  "k \<noteq> ''ASTICA_API_KEY'' \<Longrightarrow> hoare (silent L) (setenv k v) (\<lambda>v. True)"
  by (rule hoare_state) (auto simp: setenv_def silent_def key_absent_def)

lemma silent_write_file: "hoare (silent L) (write_file p d) (\<lambda>v. True)"
  by (rule hoare_state)
     (auto simp: write_file_def silent_store split: option.splits node.splits if_splits)

lemma silent_append_file: "hoare (silent L) (append_file p b) (\<lambda>v. True)"
  by (rule hoare_state)
     (auto simp: append_file_def silent_store split: option.splits node.splits)

lemma silent_remove: "hoare (silent L) (remove p) (\<lambda>v. True)"
  by (rule hoare_state)
     (auto simp: remove_def silent_def key_absent_def split: option.splits node.splits)

lemma silent_files_download: "hoare (silent L) (files_download p) (\<lambda>v. True)"
  by (rule hoare_state) (auto simp: files_download_def silent_def key_absent_def)

lemma silent_writerow: "hoare (silent L) (writerow lib p fieldnames rowdict) (\<lambda>v. True)"
  unfolding writerow_def
  by (rule hoare_seq[OF hoare_true_lift]) (rule silent_append_file)

lemma silent_writerows: "hoare (silent L) (writerows lib p fieldnames rows) (\<lambda>v. True)"
proof (induction rows)
  case Nil
  show ?case by (simp add: hoare_ret)
next
  case (Cons r rows)
  show ?case by simp (rule hoare_seq[OF silent_writerow], rule Cons.IH)
qed

lemma silent_write_csv: "hoare (silent L) (write_csv lib recs) (\<lambda>v. True)"
  unfolding write_csv_def Let_def writeheader_def is_running_in_colab_def
  by (intro hoare_if hoare_try hoare_seq_any silent_write_file silent_writerow silent_writerows
        hoare_true_gets silent_files_download hoare_true_ret) (simp_all add: hoare_ret)

lemma silent_cleanup_loop: "hoare (silent L) (cleanup_loop ts) (\<lambda>v. True)"
proof (induction ts)
  case Nil
  show ?case by (simp add: hoare_ret)
next
  case (Cons t ts)
  show ?case unfolding cleanup_loop.simps
    by (intro hoare_seq_any hoare_if hoare_try hoare_true_gets silent_remove hoare_true_ret Cons.IH)
       (simp add: hoare_ret)
qed

lemma silent_cleanup: "hoare (silent L) (cleanup ts) (\<lambda>v. True)"
  unfolding cleanup_def is_running_in_colab_def
  by (rule hoare_seq[OF hoare_true_gets]) (simp add: silent_cleanup_loop hoare_ret)

lemma silent_run_pipeline:
  "hoare (silent L) (run_pipeline lib ps ts) (list_all degraded)"
  unfolding run_pipeline_def
  by (rule hoare_seq[OF silent_process_all[of "[]"]], simp,
      rule hoare_seq[OF silent_write_csv], rule hoare_seq[OF silent_cleanup],
      rule hoare_ret)

lemma silent_setup: "hoare (silent L) setup_google_credentials (\<lambda>v. True)"
  unfolding setup_google_credentials_def is_running_in_colab_def
  apply (intro hoare_seq_any hoare_if hoare_true_gets hoare_true_ret hoare_try silent_files_upload)
  apply (auto split: list.splits intro!: hoare_seq_any silent_setenv hoare_true_ret)
  done

lemma silent_save_uploads: "hoare (silent L) (save_uploads dir ups temps) (\<lambda>v. True)"
proof (induction ups arbitrary: temps)
  case Nil
  show ?case by (simp add: hoare_ret)
next
  case (Cons a ups)
  obtain name content where a: "a = (name, content)" by (cases a)
  show ?case unfolding a save_uploads.simps Let_def
    by (intro hoare_seq_any hoare_try silent_write_file hoare_true_ret Cons.IH)
       (simp add: hoare_ret)
qed

lemma silent_main: "hoare (silent L) (main lib) (list_all degraded)"
  unfolding main_def Let_def is_running_in_colab_def
  by (intro hoare_seq_any hoare_if silent_setup hoare_true_gets silent_files_upload
        silent_save_uploads silent_run_pipeline hoare_ret) simp_all

lemma process_image_metadata_without_key:
  assumes "key_absent w" "process_image_metadata lib p w = (w', Inr m)"
  shows "map_of m ''description'' =
           Some (case lookup w' p of
                   Some (File d) \<Rightarrow>
                     if b64encode lib (raw d) = []
                     then ''Astica processing skipped (image not available for base64)''
                     else ''Astica API key not configured''
                 | _ \<Rightarrow> ''Astica processing skipped (image not available for base64)'')"
proof -
  obtain w1 where c: "compress_image lib p MAX_IMAGE_WIDTH COMPRESSION_QUALITY w = (w1, Inr ())"
    using compress_image_returns by blast
  obtain w2 t where t: "get_image_tags_from_google p w1 = (w2, Inr t)"
    using tags_returns by blast
  have k2: "key_absent w2"
    using assms(1) compress_image_frame[OF c] tags_frame[OF t] by (simp add: key_absent_def)
  have l2: "lookup w2 p = lookup w1 p"
    using tags_frame[OF t] by (simp add: lookup_def resolve_def)
  have d: "get_description_from_astica lib b w2 = (w2, Inr ''Astica API key not configured'')" for b
    using k2 by (intro description_missing_key) (simp add: key_absent_def)
  show ?thesis
    using assms(2) c t d
    by (auto simp: process_image_metadata_unfold convert_unfold
        split: option.splits node.splits if_splits)
qed

subsection \<open>A run that returns no record\<close>

text \<open>Setting up the credentials and asking for uploads leave the file system as it is.\<close>

lemma untouched_files_upload: "hoare (untouched w0) files_upload (\<lambda>v. True)"
  by (rule hoare_state) (auto simp: files_upload_def untouched_def split: list.splits)

lemma untouched_setenv: "hoare (untouched w0) (setenv k v) (\<lambda>v. True)"
  by (rule hoare_state) (auto simp: setenv_def untouched_def)

lemma untouched_setup: "hoare (untouched w0) setup_google_credentials (\<lambda>v. True)"
  unfolding setup_google_credentials_def is_running_in_colab_def
  apply (intro hoare_seq_any hoare_if hoare_true_gets hoare_true_ret hoare_try untouched_files_upload)
  apply (auto split: list.splits intro!: hoare_seq_any untouched_setenv hoare_true_ret)
  done

lemma main_no_records_untouched:
  assumes "main lib w = (w', Inr [])"
  shows "fs w' = fs w \<and> downloads w' = downloads w"
proof -
  obtain w1 ok where s: "setup_google_credentials w = (w1, Inr ok)"
    using returnsD[OF setup_returns, of w] by blast
  have "untouched w w" by (simp add: untouched_def)
  from hoareD[OF untouched_setup this s] have u1: "untouched w w1" by simp
  show ?thesis
  proof (cases ok)
    case False
    with s assms main_aborts[of w w1 lib] u1 show ?thesis by (simp add: untouched_def)
  next
    case True
    show ?thesis
    proof (cases "colab w1")
      case c: True
      obtain w2 r2 where up: "files_upload w1 = (w2, r2)" by (cases "files_upload w1")
      from hoareD[OF untouched_files_upload u1 up] have u2: "untouched w w2" by simp
      show ?thesis
      proof (cases r2)
        case (Inl e)
        with assms s True c up show ?thesis
          by (simp add: main_def prog_defs is_running_in_colab_def)
      next
        case (Inr ups)
        show ?thesis
        proof (cases "ups = []")
          case e: True
          with assms s True c up Inr u2 show ?thesis
            by (simp add: main_def prog_defs is_running_in_colab_def untouched_def)
        next
          case ne: False
          obtain w3 r3 where sv: "save_uploads (cwd w2) ups [] w2 = (w3, r3)"
            by (cases "save_uploads (cwd w2) ups [] w2")
          from save_uploads_result[OF sv] obtain temps where
            t: "r3 = Inr temps" "temps = [] \<longrightarrow> w3 = w2" by auto
          from assms s True c up Inr ne sv t(1)
          have rp: "run_pipeline lib temps temps w3 = (w', Inr [])"
            by (simp add: main_def prog_defs is_running_in_colab_def)
          with run_pipeline_some[of temps lib temps w3 w'] have "temps = []" by blast
          with rp t(2) u2 show ?thesis by (simp add: run_pipeline_nothing untouched_def)
        qed
      qed
    next
      case l: False
      let ?src = "strip (stdin w1)"
      let ?ps = "scan_directory ?src (listdir w1 ?src)"
      from main_after_setup[OF s l, of lib] True assms have m: "(w', Inr []) =
          (if \<not> path_exists w1 ?src then (w1, Inr [])
           else if isdir w1 ?src then
             (if ?ps = [] then (w1, Inr []) else run_pipeline lib ?ps [] w1)
           else if isfile w1 ?src then
             (if endswith_any (lower ?src) IMAGE_EXTENSIONS then run_pipeline lib [?src] [] w1
              else (w1, Inr []))
           else (w1, Inr []))"
        by simp
      have "w' = w1"
        using m run_pipeline_some[of ?ps lib "[]" w1 w'] run_pipeline_some[of "[?src]" lib "[]" w1 w']
        by (auto split: if_splits)
      with u1 show ?thesis by (simp add: untouched_def)
    qed
  qed
qed

subsection \<open>The concrete runs\<close>

lemma main_sample_world:
  "snd (main sample_lib sample_world) =
     Inr [[(''filename'', ''a.jpg''), (''description'', ''a cat''), (''tags'', ''Cat, Pet'')]]"
  by code_simp

lemma main_mixed_world:
  "snd (main sample_lib mixed_world) =
     Inr [[(''filename'', ''b.JPG''), (''description'', ''a cat''), (''tags'', ''Cat, Pet'')],
          [(''filename'', ''locked.jpg''),
           (''description'', ''Astica processing skipped (image not available for base64)''),
           (''tags'', ''Google Vision tags failed'')],
          [(''filename'', ''album.png''),
           (''description'', ''Astica processing skipped (image not available for base64)''),
           (''tags'', ''Google Vision tags failed'')]]"
  by code_simp

lemma main_keyless_world:
  "snd (main sample_lib keyless_world) =
     Inr [[(''filename'', ''b.JPG''),
           (''description'', ''Astica API key not configured''),
           (''tags'', ''Cat, Pet'')],
          [(''filename'', ''locked.jpg''),
           (''description'', ''Astica processing skipped (image not available for base64)''),
           (''tags'', ''Google Vision tags failed'')],
          [(''filename'', ''album.png''),
           (''description'', ''Astica processing skipped (image not available for base64)''),
           (''tags'', ''Google Vision tags failed'')]]"
  by code_simp

lemma main_keyless_file_world:
  "snd (main sample_lib keyless_file_world) =
     Inr [[(''filename'', ''thumb.png''),
           (''description'', ''Astica API key not configured''),
           (''tags'', ''Cat, Pet'')]]"
  by code_simp

lemma main_keyless_notebook_world:
  "snd (main sample_lib keyless_notebook_world) =
     Inr [[(''filename'', ''new.png''),
           (''description'', ''Astica API key not configured''),
           (''tags'', ''Cat, Pet'')]]"
  by code_simp

section \<open>The claims\<close>

text \<open>
  Claim C1, evaluated at a failing input. In the sample session \<open>main\<close> produces one
  record, and the CSV file it leaves holds the header row \<open>Filename,Description,Tags\<close>
  and no data row: the writer is created with the capitalised field names while each
  record is keyed \<open>filename\<close>, \<open>description\<close>, \<open>tags\<close>, so \<open>writerows\<close> raises
  \<open>ValueError\<close> at the first record and the \<open>except Exception\<close> clause ends the export.
  Lemma \<open>write_csv_header_only\<close> shows the same for every non-empty list of records.
\<close>

theorem main_sample_world_csv_header_only:
  "snd (main sample_lib sample_world) =
     Inr [[(''filename'', ''a.jpg''), (''description'', ''a cat''), (''tags'', ''Cat, Pet'')]] \<and>
   lookup (fst (main sample_lib sample_world)) OUTPUT_CSV_FILENAME =
     Some (File \<lparr>raw = ''Filename,Description,Tags'' @ [CHR 0x0D, CHR 0x0A], picture = None\<rparr>)"
  by code_simp

text \<open>
  Claim C2 (as amended). \<open>get_description_from_astica\<close> never raises: for every library
  instance, input and world it returns a string. Which string is decided by mutually
  exclusive outcomes: the missing-key sentinel when \<open>ASTICA_API_KEY\<close> is unset or empty
  (and then no request is sent); the HTTP-error sentinel for a 4xx or 5xx status; for an
  exception raised by the request or by the JSON decoding, the HTTP-error sentinel for
  an HTTP error, the connection-error sentinel for another requests exception, the
  JSON-decoding sentinel for a \<open>ValueError\<close>, and a seventh sentinel, "unexpected error",
  for anything else; for a decoded dict that reports an error, the text
  "Astica API error: " followed by the message; for a missing or blank caption the
  no-description sentinel; for a caption string its stripped text; and the
  unexpected-error sentinel when the decoded JSON is not a dict or its caption is not a
  string. The statement leaves open which sentinel answers an exception that is a
  requests exception and a \<open>ValueError\<close> at once.
\<close>

theorem get_description_from_astica_contract:
  fixes lib b w
  defines "out \<equiv> snd (get_description_from_astica lib b w)"
  defines "reply \<equiv> \<lambda>tkn. astica_service w (length (astica_log w)) tkn b"
  defines "bad \<equiv> \<lambda>resp. 400 \<le> status_code resp \<and> status_code resp < 600"
  shows
   "(\<exists>w' s. get_description_from_astica lib b w = (w', Inr s)) \<and>
    (environ w ''ASTICA_API_KEY'' = None \<or> environ w ''ASTICA_API_KEY'' = Some [] \<longrightarrow>
       get_description_from_astica lib b w = (w, Inr ''Astica API key not configured'')) \<and>
    (\<forall>tkn. environ w ''ASTICA_API_KEY'' = Some tkn \<and> tkn \<noteq> [] \<longrightarrow>
       (\<forall>resp. reply tkn = Inr resp \<and> bad resp \<longrightarrow>
          out = Inr ''Astica API request failed (HTTP error)'') \<and>
       (\<forall>e. (reply tkn = Inl e
               \<or> (\<exists>resp. reply tkn = Inr resp \<and> \<not> bad resp \<and> json_body resp = Inl e))
             \<and> \<not> (is_RequestException e \<and> is_ValueError e) \<longrightarrow>
          out = Inr (if is_HTTPError e then ''Astica API request failed (HTTP error)''
                     else if is_RequestException e
                       then ''Astica API request failed (Connection/Request error)''
                     else if is_ValueError e then ''Astica API response JSON decoding failed''
                     else ''Astica description processing failed (Unexpected error)'')) \<and>
       (\<forall>resp x. reply tkn = Inr resp \<and> \<not> bad resp \<and> json_body resp = Inr x \<longrightarrow>
          (case x of
             PDict kvs \<Rightarrow>
               if map_of kvs ''status'' = Some (PStr ''error'') \<or> map_of kvs ''error'' \<noteq> None
               then out = Inr (''Astica API error: '' @
                      py_str lib (case map_of kvs ''error'' of Some v \<Rightarrow> v
                                  | None \<Rightarrow> PStr ''Unknown Astica API error''))
               else (case map_of kvs ''caption'' of
                       None \<Rightarrow> out = Inr ''No description available from Astica''
                     | Some (PStr c) \<Rightarrow>
                         out = Inr (if strip c = [] then ''No description available from Astica''
                                    else strip c)
                     | Some v \<Rightarrow>
                         out = Inr ''Astica description processing failed (Unexpected error)'')
           | _ \<Rightarrow> out = Inr ''Astica description processing failed (Unexpected error)'')))"
proof (intro conjI allI impI)
  show "\<exists>w' s. get_description_from_astica lib b w = (w', Inr s)"
    using description_returns by blast
next
  assume "environ w ''ASTICA_API_KEY'' = None \<or> environ w ''ASTICA_API_KEY'' = Some []"
  then show "get_description_from_astica lib b w = (w, Inr ''Astica API key not configured'')"
    by (rule description_missing_key)
next
  fix tkn resp
  assume "environ w ''ASTICA_API_KEY'' = Some tkn \<and> tkn \<noteq> []"
    and "reply tkn = Inr resp \<and> bad resp"
  then show "out = Inr ''Astica API request failed (HTTP error)''"
    by (simp add: out_def reply_def bad_def description_with_key astica_request_unfold
          astica_handlers_total is_HTTPError_def)
next
  fix tkn e
  assume k: "environ w ''ASTICA_API_KEY'' = Some tkn \<and> tkn \<noteq> []"
    and r: "(reply tkn = Inl e
               \<or> (\<exists>resp. reply tkn = Inr resp \<and> \<not> bad resp \<and> json_body resp = Inl e))
             \<and> \<not> (is_RequestException e \<and> is_ValueError e)"
  from r have "astica_request lib tkn b w = (w\<lparr>astica_log := astica_log w @ [b]\<rparr>, Inl e)"
    by (auto simp: reply_def bad_def astica_request_unfold)
  with k show "out = Inr (if is_HTTPError e then ''Astica API request failed (HTTP error)''
                     else if is_RequestException e
                       then ''Astica API request failed (Connection/Request error)''
                     else if is_ValueError e then ''Astica API response JSON decoding failed''
                     else ''Astica description processing failed (Unexpected error)'')"
    by (simp add: out_def description_with_key astica_handlers_total)
next
  fix tkn resp x
  assume k: "environ w ''ASTICA_API_KEY'' = Some tkn \<and> tkn \<noteq> []"
    and r: "reply tkn = Inr resp \<and> \<not> bad resp \<and> json_body resp = Inr x"
  let ?w1 = "w\<lparr>astica_log := astica_log w @ [b]\<rparr>"
  from r have req: "astica_request lib tkn b w = read_astica_result lib x ?w1"
    by (auto simp: reply_def bad_def astica_request_unfold)
  have unexpected: "handle astica_handlers AttributeError ?w1 =
      (?w1, Inr ''Astica description processing failed (Unexpected error)'')"
    by (simp add: astica_handlers_total is_HTTPError_def is_RequestException_def is_ValueError_def)
  show "(case x of
             PDict kvs \<Rightarrow>
               if map_of kvs ''status'' = Some (PStr ''error'') \<or> map_of kvs ''error'' \<noteq> None
               then out = Inr (''Astica API error: '' @
                      py_str lib (case map_of kvs ''error'' of Some v \<Rightarrow> v
                                  | None \<Rightarrow> PStr ''Unknown Astica API error''))
               else (case map_of kvs ''caption'' of
                       None \<Rightarrow> out = Inr ''No description available from Astica''
                     | Some (PStr c) \<Rightarrow>
                         out = Inr (if strip c = [] then ''No description available from Astica''
                                    else strip c)
                     | Some v \<Rightarrow>
                         out = Inr ''Astica description processing failed (Unexpected error)'')
           | _ \<Rightarrow> out = Inr ''Astica description processing failed (Unexpected error)'')"
  proof (cases "\<exists>kvs. x = PDict kvs")
    case False
    then have "read_astica_result lib x ?w1 = (?w1, Inl AttributeError)"
      by (intro read_astica_result_not_dict) auto
    with k req unexpected have "out = Inr ''Astica description processing failed (Unexpected error)''"
      by (simp add: out_def description_with_key)
    with False show ?thesis by (cases x) auto
  next
    case True
    then obtain kvs where x: "x = PDict kvs" by blast
    show ?thesis
    proof (cases "map_of kvs ''status'' = Some (PStr ''error'') \<or> map_of kvs ''error'' \<noteq> None")
      case True
      from read_astica_result_error[OF True, of lib ?w1] k req x True show ?thesis
        by (simp add: out_def description_with_key)
    next
      case False
      then have f1: "map_of kvs ''status'' \<noteq> Some (PStr ''error'')" and f2: "map_of kvs ''error'' = None"
        by auto
      from read_astica_result_caption[OF f1 f2, of lib ?w1] k req x False unexpected show ?thesis
        by (auto simp: out_def description_with_key split: option.splits pyval.splits)
    qed
  qed
qed

theorem get_description_from_astica_contract_witness:
  "environ sample_world ''ASTICA_API_KEY'' = Some ''k'' \<and>
   astica_service sample_world (length (astica_log sample_world)) ''k'' ''SkZJRg=='' =
     Inr \<lparr>status_code = 200, json_body = Inr (PDict [(''caption'', PStr '' a cat '')])\<rparr> \<and>
   snd (get_description_from_astica sample_lib ''SkZJRg=='' sample_world) = Inr ''a cat''"
proof -
  have 1: "environ sample_world ''ASTICA_API_KEY'' = Some ''k'' \<and> ''k'' \<noteq> []"
    by (simp add: sample_world_def)
  have 2: "astica_service sample_world (length (astica_log sample_world)) ''k'' ''SkZJRg=='' =
     Inr \<lparr>status_code = 200, json_body = Inr (PDict [(''caption'', PStr '' a cat '')])\<rparr>"
    by (simp add: sample_world_def)
  have 3: "strip '' a cat '' = ''a cat''"
    by (simp add: strip_def is_space_def)
  from get_description_from_astica_contract[of sample_lib "''SkZJRg==''" sample_world]
  have "\<forall>tkn. environ sample_world ''ASTICA_API_KEY'' = Some tkn \<and> tkn \<noteq> [] \<longrightarrow>
    (\<forall>resp x. astica_service sample_world (length (astica_log sample_world)) tkn ''SkZJRg=='' = Inr resp
        \<and> \<not> (400 \<le> status_code resp \<and> status_code resp < 600) \<and> json_body resp = Inr x \<longrightarrow>
          (case x of
             PDict kvs \<Rightarrow>
               if map_of kvs ''status'' = Some (PStr ''error'') \<or> map_of kvs ''error'' \<noteq> None
               then snd (get_description_from_astica sample_lib ''SkZJRg=='' sample_world) =
                    Inr (''Astica API error: '' @
                      py_str sample_lib (case map_of kvs ''error'' of Some v \<Rightarrow> v
                                  | None \<Rightarrow> PStr ''Unknown Astica API error''))
               else (case map_of kvs ''caption'' of
                       None \<Rightarrow> snd (get_description_from_astica sample_lib ''SkZJRg=='' sample_world) =
                          Inr ''No description available from Astica''
                     | Some (PStr c) \<Rightarrow>
                         snd (get_description_from_astica sample_lib ''SkZJRg=='' sample_world) =
                           Inr (if strip c = [] then ''No description available from Astica''
                                    else strip c)
                     | Some v \<Rightarrow>
                         snd (get_description_from_astica sample_lib ''SkZJRg=='' sample_world) =
                           Inr ''Astica description processing failed (Unexpected error)'')
           | _ \<Rightarrow> snd (get_description_from_astica sample_lib ''SkZJRg=='' sample_world) =
                  Inr ''Astica description processing failed (Unexpected error)''))"
    by blast
  from this[rule_format, OF 1, of "\<lparr>status_code = 200, json_body = Inr (PDict [(''caption'', PStr '' a cat '')])\<rparr>"
      "PDict [(''caption'', PStr '' a cat '')]"] 2 3
  have "snd (get_description_from_astica sample_lib ''SkZJRg=='' sample_world) = Inr ''a cat''"
    by simp
  with 1 2 show ?thesis by simp
qed

text \<open>
  Counterexample to C2 as stated. A 200 response whose JSON is a list is answered with the
  unexpected-error sentinel, which is none of the six kinds the claim lists; and a 304
  response with a caption is answered with the caption, not with the HTTP-error sentinel.
\<close>

theorem get_description_from_astica_counterexample:
  "snd (get_description_from_astica sample_lib ''SkZJRg==''
      (sample_world\<lparr>astica_service := \<lambda>n t i.
         Inr \<lparr>status_code = 200, json_body = Inr (PList [])\<rparr>\<rparr>))
     = Inr ''Astica description processing failed (Unexpected error)'' \<and>
   ''Astica description processing failed (Unexpected error)'' \<notin>
     set [''Astica API key not configured'',
          ''Astica API request failed (HTTP error)'',
          ''Astica API request failed (Connection/Request error)'',
          ''Astica API response JSON decoding failed'',
          ''No description available from Astica''] \<and>
   \<not> startswith ''Astica description processing failed (Unexpected error)''
       ''Astica API error: '' \<and>
   snd (get_description_from_astica sample_lib ''SkZJRg==''
      (sample_world\<lparr>astica_service := \<lambda>n t i.
         Inr \<lparr>status_code = 304, json_body = Inr (PDict [(''caption'', PStr ''a cat'')])\<rparr>\<rparr>))
     = Inr ''a cat'' \<and>
   ''a cat'' \<noteq> ''Astica API request failed (HTTP error)''"
  by (simp add: description_unfold astica_request_unfold astica_handlers_total
        read_astica_result_def prog_defs dict_get_def py_in_def py_strip_def strip_def
        is_space_def is_HTTPError_def is_RequestException_def is_ValueError_def
        startswith_def sample_world_def)

text \<open>
  Claim C3 (as amended). \<open>get_image_tags_from_google\<close> never raises. When the client
  starts, the file is read and the service answers without an error message, it returns
  the label descriptions joined by ", " in response order if that text is not empty, and
  the "no tags found" sentinel if it is empty, which is the case for zero labels and for
  a single label with an empty description, and for no other response. On any error
  (the client cannot start, the file cannot be read, the call raises, the response
  carries an error message) it returns the fixed failure sentinel.
\<close>

theorem get_image_tags_from_google_contract:
  fixes p w
  defines "out \<equiv> snd (get_image_tags_from_google p w)"
  defines "reply \<equiv> \<lambda>d. vision_service w (length (vision_log w)) (raw d)"
  shows
   "(\<exists>w' s. get_image_tags_from_google p w = (w', Inr s)) \<and>
    (\<forall>d response. vision_client w = None \<and> lookup w p = Some (File d)
         \<and> reply d = Inr response \<and> error_message response = [] \<longrightarrow>
       out = Inr (if join '', '' (map description (label_annotations response)) = []
                  then ''No tags found by Google Vision''
                  else join '', '' (map description (label_annotations response)))) \<and>
    (\<forall>ds. (join '', '' ds = []) = (ds = [] \<or> ds = [[]])) \<and>
    (vision_client w \<noteq> None \<or> (\<forall>d. lookup w p \<noteq> Some (File d))
       \<or> (\<exists>d e. lookup w p = Some (File d) \<and> reply d = Inl e)
       \<or> (\<exists>d response. lookup w p = Some (File d) \<and> reply d = Inr response
             \<and> error_message response \<noteq> []) \<longrightarrow>
       out = Inr ''Google Vision tags failed'')"
proof (intro conjI allI impI)
  show "\<exists>w' s. get_image_tags_from_google p w = (w', Inr s)"
    using tags_returns by blast
next
  fix d response
  assume "vision_client w = None \<and> lookup w p = Some (File d)
         \<and> reply d = Inr response \<and> error_message response = []"
  then show "out = Inr (if join '', '' (map description (label_annotations response)) = []
                  then ''No tags found by Google Vision''
                  else join '', '' (map description (label_annotations response)))"
    by (simp add: out_def reply_def tags_unfold Let_def)
next
  fix ds show "(join '', '' ds = []) = (ds = [] \<or> ds = [[]])" by (rule join_comma_empty)
next
  assume "vision_client w \<noteq> None \<or> (\<forall>d. lookup w p \<noteq> Some (File d))
       \<or> (\<exists>d e. lookup w p = Some (File d) \<and> reply d = Inl e)
       \<or> (\<exists>d response. lookup w p = Some (File d) \<and> reply d = Inr response
             \<and> error_message response \<noteq> [])"
  then show "out = Inr ''Google Vision tags failed''"
    by (auto simp: out_def reply_def tags_unfold Let_def split: option.splits node.splits)
qed

theorem get_image_tags_from_google_contract_witness:
  "vision_client sample_world = None \<and>
   lookup sample_world ''pics/a.jpg'' =
     Some (File \<lparr>raw = ''JFIF'', picture = Some \<lparr>width = 2048, height = 1000,
       mode = ''RGB'', load_error = None\<rparr>\<rparr>) \<and>
   snd (get_image_tags_from_google ''pics/a.jpg'' sample_world) = Inr ''Cat, Pet''"
proof -
  have 1: "vision_client sample_world = None" by (simp add: sample_world_def)
  have 2: "lookup sample_world ''pics/a.jpg'' =
     Some (File \<lparr>raw = ''JFIF'', picture = Some \<lparr>width = 2048, height = 1000,
       mode = ''RGB'', load_error = None\<rparr>\<rparr>)"
    by (simp add: sample_defs)
  have 3: "vision_service sample_world (length (vision_log sample_world)) ''JFIF'' =
      Inr \<lparr>error_message = [], label_annotations = [\<lparr>mid = ''m1'', description = ''Cat''\<rparr>,
                             \<lparr>mid = ''m2'', description = ''Pet''\<rparr>]\<rparr>"
    by (simp add: sample_world_def)
  from get_image_tags_from_google_contract[of "''pics/a.jpg''" sample_world]
  have "\<forall>d response. vision_client sample_world = None \<and> lookup sample_world ''pics/a.jpg'' = Some (File d)
         \<and> vision_service sample_world (length (vision_log sample_world)) (raw d) = Inr response \<and> error_message response = [] \<longrightarrow>
       snd (get_image_tags_from_google ''pics/a.jpg'' sample_world) =
         Inr (if join '', '' (map description (label_annotations response)) = []
                  then ''No tags found by Google Vision''
                  else join '', '' (map description (label_annotations response)))"
    by blast
  from this[rule_format, OF conjI[OF 1 conjI[OF 2]]] 3
  have "snd (get_image_tags_from_google ''pics/a.jpg'' sample_world) = Inr ''Cat, Pet''"
    by simp
  with 1 2 show ?thesis by simp
qed

text \<open>
  Counterexample to C3 as stated: with one label whose description is empty, the
  function returns the "no tags found" sentinel and not the joined descriptions.
\<close>

theorem get_image_tags_empty_label_counterexample:
  "vision_service
     (sample_world\<lparr>vision_service := \<lambda>n b. Inr \<lparr>error_message = [],
        label_annotations = [\<lparr>mid = ''m1'', description = []\<rparr>]\<rparr>\<rparr>) 0 ''JFIF''
     = Inr \<lparr>error_message = [], label_annotations = [\<lparr>mid = ''m1'', description = []\<rparr>]\<rparr> \<and>
   snd (get_image_tags_from_google ''pics/a.jpg''
     (sample_world\<lparr>vision_service := \<lambda>n b. Inr \<lparr>error_message = [],
        label_annotations = [\<lparr>mid = ''m1'', description = []\<rparr>]\<rparr>\<rparr>))
     = Inr ''No tags found by Google Vision'' \<and>
   snd (get_image_tags_from_google ''pics/a.jpg''
     (sample_world\<lparr>vision_service := \<lambda>n b. Inr \<lparr>error_message = [],
        label_annotations = [\<lparr>mid = ''m1'', description = []\<rparr>]\<rparr>\<rparr>))
     \<noteq> Inr (join '', '' (map description [\<lparr>mid = ''m1'', description = []\<rparr>]))"
  by (simp add: tags_unfold sample_defs)

text \<open>
  Claim C4 (as amended). For an image file whose pixel data decodes:
  when the image is not wider than the maximum and the file is written, \<open>compress_image\<close>
  stores the image at its width and height, in the bytes the encoder gives for it at the
  requested quality, and changes nothing else; when the image is wider, the maximum is
  at least 1, the computed height \<open>int(float(height) * (max_width / float(width)))\<close> is
  at least 1 and the file is written, the stored image has exactly the maximum as its
  width and the computed height as its height. With float operations that are accurate
  to a relative error \<open>u\<close>, the computed height \<open>hs\<close> of an image wider than the maximum
  lies within rounding of the scaled height \<open>r = height * max_width / width\<close>:
  \<open>r * (1 - u)\<^sup>2 - 1 < hs \<le> r * (1 + u)\<^sup>2\<close>.
\<close>

theorem compress_image_resize_contract:
  "(\<forall>d img b m. lookup w p = Some (File d) \<and> picture d = Some img \<and> load_error img = None
        \<and> width img \<le> max_width \<and> pil_encode lib img p quality = Encoded b m \<longrightarrow>
      compress_image lib p max_width quality w =
        (store p (File \<lparr>raw = b, picture = Some (img\<lparr>mode := m\<rparr>)\<rparr>) w, Inr ()) \<and>
      dimensions (fst (compress_image lib p max_width quality w)) p =
        Some (width img, height img)) \<and>
   (\<forall>d img hs b m. lookup w p = Some (File d) \<and> picture d = Some img \<and> load_error img = None
        \<and> max_width < width img \<and> float_of_int lib (width img) \<noteq> 0
        \<and> hs = py_int (float_mul lib (float_of_int lib (height img))
                 (float_div lib (float_of_int lib max_width) (float_of_int lib (width img))))
        \<and> 1 \<le> max_width \<and> 1 \<le> hs
        \<and> pil_encode lib (img\<lparr>width := max_width, height := hs\<rparr>) p quality = Encoded b m \<longrightarrow>
      compress_image lib p max_width quality w =
        (store p (File \<lparr>raw = b,
           picture = Some (img\<lparr>width := max_width, height := hs, mode := m\<rparr>)\<rparr>) w, Inr ()) \<and>
      dimensions (fst (compress_image lib p max_width quality w)) p = Some (max_width, hs)) \<and>
   (\<forall>img u hs r. floats_accurate lib u max_width img \<and> 0 < max_width \<and> max_width < width img
        \<and> 0 \<le> height img
        \<and> hs = py_int (float_mul lib (float_of_int lib (height img))
                 (float_div lib (float_of_int lib max_width) (float_of_int lib (width img))))
        \<and> r = of_int (height img) * of_int max_width / of_int (width img) \<longrightarrow>
      r * (1 - u)\<^sup>2 - 1 < of_int hs \<and> of_int hs \<le> r * (1 + u)\<^sup>2)"
proof (intro conjI allI impI)
  fix d img b m
  assume a: "lookup w p = Some (File d) \<and> picture d = Some img \<and> load_error img = None
        \<and> width img \<le> max_width \<and> pil_encode lib img p quality = Encoded b m"
  then have c: "compress_image lib p max_width quality w =
        (store p (File \<lparr>raw = b, picture = Some (img\<lparr>mode := m\<rparr>)\<rparr>) w, Inr ())"
    by (elim conjE) (rule compress_image_narrow_encoded; assumption)
  from c show "compress_image lib p max_width quality w =
        (store p (File \<lparr>raw = b, picture = Some (img\<lparr>mode := m\<rparr>)\<rparr>) w, Inr ())" .
  from a have "p \<noteq> []" by (auto dest: lookup_nonempty)
  with c show "dimensions (fst (compress_image lib p max_width quality w)) p =
        Some (width img, height img)"
    by (simp add: dimensions_def lookup_store)
next
  fix d img hs b m
  assume a: "lookup w p = Some (File d) \<and> picture d = Some img \<and> load_error img = None
        \<and> max_width < width img \<and> float_of_int lib (width img) \<noteq> 0
        \<and> hs = py_int (float_mul lib (float_of_int lib (height img))
                 (float_div lib (float_of_int lib max_width) (float_of_int lib (width img))))
        \<and> 1 \<le> max_width \<and> 1 \<le> hs
        \<and> pil_encode lib (img\<lparr>width := max_width, height := hs\<rparr>) p quality = Encoded b m"
  then have c: "compress_image lib p max_width quality w =
        (store p (File \<lparr>raw = b,
           picture = Some (img\<lparr>width := max_width, height := hs, mode := m\<rparr>)\<rparr>) w, Inr ())"
    by (elim conjE) (rule compress_image_wide_encoded; assumption)
  from c show "compress_image lib p max_width quality w =
        (store p (File \<lparr>raw = b,
           picture = Some (img\<lparr>width := max_width, height := hs, mode := m\<rparr>)\<rparr>) w, Inr ())" .
  from a have "p \<noteq> []" by (auto dest: lookup_nonempty)
  with c show "dimensions (fst (compress_image lib p max_width quality w)) p = Some (max_width, hs)"
    by (simp add: dimensions_def lookup_store)
next
  fix img u hs and r :: rat
  assume a: "floats_accurate lib u max_width img \<and> 0 < max_width \<and> max_width < width img
        \<and> 0 \<le> height img
        \<and> hs = py_int (float_mul lib (float_of_int lib (height img))
                 (float_div lib (float_of_int lib max_width) (float_of_int lib (width img))))
        \<and> r = of_int (height img) * of_int max_width / of_int (width img)"
  then have b: "floats_accurate lib u max_width img" "0 < max_width" "max_width < width img"
      "0 \<le> height img" by simp_all
  from new_height_within_rounding[OF b] a
  show "r * (1 - u)\<^sup>2 - 1 < of_int hs" and "of_int hs \<le> r * (1 + u)\<^sup>2"
    by simp_all
qed

theorem compress_image_resize_contract_witness:
  "lookup sample_world ''pics/a.jpg'' =
     Some (File \<lparr>raw = ''JFIF'', picture = Some \<lparr>width = 2048, height = 1000,
       mode = ''RGB'', load_error = None\<rparr>\<rparr>) \<and>
   MAX_IMAGE_WIDTH < (2048::int) \<and>
   py_int (float_mul sample_lib (float_of_int sample_lib 1000)
      (float_div sample_lib (float_of_int sample_lib MAX_IMAGE_WIDTH) (float_of_int sample_lib 2048)))
     = 500 \<and>
   pil_encode sample_lib \<lparr>width = 1024, height = 500, mode = ''RGB'', load_error = None\<rparr>
      ''pics/a.jpg'' COMPRESSION_QUALITY = Encoded ''JFIF'' ''RGB'' \<and>
   dimensions (fst (compress_image sample_lib ''pics/a.jpg'' MAX_IMAGE_WIDTH COMPRESSION_QUALITY
      sample_world)) ''pics/a.jpg'' = Some (1024, 500) \<and>
   floats_accurate sample_lib 0 MAX_IMAGE_WIDTH
     \<lparr>width = 2048, height = 1000, mode = ''RGB'', load_error = None\<rparr> \<and>
   (1000 * 1024 / 2048 :: rat) * (1 - 0)\<^sup>2 - 1 < 500 \<and>
   (500 :: rat) \<le> (1000 * 1024 / 2048) * (1 + 0)\<^sup>2 \<and>
   lookup sample_world ''thumb.png'' =
     Some (File \<lparr>raw = ''PNG'', picture = Some \<lparr>width = 800, height = 600,
       mode = ''RGB'', load_error = None\<rparr>\<rparr>) \<and>
   pil_encode sample_lib \<lparr>width = 800, height = 600, mode = ''RGB'', load_error = None\<rparr>
      ''thumb.png'' COMPRESSION_QUALITY = Encoded ''PNG'' ''RGB'' \<and>
   dimensions (fst (compress_image sample_lib ''thumb.png'' MAX_IMAGE_WIDTH COMPRESSION_QUALITY
      sample_world)) ''thumb.png'' = Some (800, 600)"
proof -
  let ?img = "\<lparr>width = 2048, height = 1000, mode = ''RGB'', load_error = None\<rparr>"
  let ?d = "\<lparr>raw = ''JFIF'', picture = Some ?img\<rparr>"
  have 1: "lookup sample_world ''pics/a.jpg'' = Some (File ?d)"
    by (simp add: sample_defs)
  have 2: "MAX_IMAGE_WIDTH < (2048::int)" by (simp add: MAX_IMAGE_WIDTH_def)
  have 3: "py_int (float_mul sample_lib (float_of_int sample_lib 1000)
      (float_div sample_lib (float_of_int sample_lib MAX_IMAGE_WIDTH) (float_of_int sample_lib 2048)))
      = 500"
    by (simp add: sample_lib_def MAX_IMAGE_WIDTH_def py_int_def)
  have 4: "pil_encode sample_lib \<lparr>width = 1024, height = 500, mode = ''RGB'', load_error = None\<rparr>
      ''pics/a.jpg'' COMPRESSION_QUALITY = Encoded ''JFIF'' ''RGB''"
    by (simp add: sample_lib_def sample_encode_def endswith_any_def endswith_def lower_def
        lower_char_def)
  have 5: "floats_accurate sample_lib 0 MAX_IMAGE_WIDTH ?img"
    by (simp add: floats_accurate_def rounded_def sample_lib_def MAX_IMAGE_WIDTH_def)
  note t = compress_image_resize_contract[where w = sample_world and p = "''pics/a.jpg''"
      and lib = sample_lib and max_width = MAX_IMAGE_WIDTH and quality = COMPRESSION_QUALITY]
  have "lookup sample_world ''pics/a.jpg'' = Some (File ?d) \<and> picture ?d = Some ?img
        \<and> load_error ?img = None
        \<and> MAX_IMAGE_WIDTH < width ?img \<and> float_of_int sample_lib (width ?img) \<noteq> 0
        \<and> 500 = py_int (float_mul sample_lib (float_of_int sample_lib (height ?img))
                 (float_div sample_lib (float_of_int sample_lib MAX_IMAGE_WIDTH)
                    (float_of_int sample_lib (width ?img))))
        \<and> 1 \<le> MAX_IMAGE_WIDTH \<and> (1::int) \<le> 500
        \<and> pil_encode sample_lib (?img\<lparr>width := MAX_IMAGE_WIDTH, height := 500\<rparr>) ''pics/a.jpg''
             COMPRESSION_QUALITY = Encoded ''JFIF'' ''RGB''"
    using 1 3 4 by (simp add: MAX_IMAGE_WIDTH_def sample_lib_def)
  from t[THEN conjunct2, THEN conjunct1, rule_format,
      where d = ?d and img = ?img and hs = 500 and b = "''JFIF''" and m = "''RGB''", OF this,
      THEN conjunct2]
  have a: "dimensions (fst (compress_image sample_lib ''pics/a.jpg'' MAX_IMAGE_WIDTH
      COMPRESSION_QUALITY sample_world)) ''pics/a.jpg'' = Some (1024, 500)"
    by (simp add: MAX_IMAGE_WIDTH_def)
  have "floats_accurate sample_lib 0 MAX_IMAGE_WIDTH ?img \<and> 0 < MAX_IMAGE_WIDTH
        \<and> MAX_IMAGE_WIDTH < width ?img \<and> 0 \<le> height ?img
        \<and> 500 = py_int (float_mul sample_lib (float_of_int sample_lib (height ?img))
                 (float_div sample_lib (float_of_int sample_lib MAX_IMAGE_WIDTH)
                    (float_of_int sample_lib (width ?img))))
        \<and> (500 :: rat) = of_int (height ?img) * of_int MAX_IMAGE_WIDTH / of_int (width ?img)"
    using 3 5 by (simp add: MAX_IMAGE_WIDTH_def)
  from t[THEN conjunct2, THEN conjunct2, rule_format,
      where u = 0 and img = ?img and hs = 500 and r = 500, OF this]
  have b: "(1000 * 1024 / 2048 :: rat) * (1 - 0)\<^sup>2 - 1 < 500 \<and>
     (500 :: rat) \<le> (1000 * 1024 / 2048) * (1 + 0)\<^sup>2"
    by simp
  let ?small = "\<lparr>width = 800, height = 600, mode = ''RGB'', load_error = None\<rparr>"
  let ?f = "\<lparr>raw = ''PNG'', picture = Some ?small\<rparr>"
  note s = compress_image_resize_contract[where w = sample_world and p = "''thumb.png''"
      and lib = sample_lib and max_width = MAX_IMAGE_WIDTH and quality = COMPRESSION_QUALITY]
  have 6: "lookup sample_world ''thumb.png'' = Some (File ?f)"
    by (simp add: sample_defs)
  have 7: "pil_encode sample_lib ?small ''thumb.png'' COMPRESSION_QUALITY = Encoded ''PNG'' ''RGB''"
    by (simp add: sample_lib_def sample_encode_def endswith_any_def endswith_def lower_def
        lower_char_def)
  have "lookup sample_world ''thumb.png'' = Some (File ?f) \<and> picture ?f = Some ?small
        \<and> load_error ?small = None \<and> width ?small \<le> MAX_IMAGE_WIDTH
        \<and> pil_encode sample_lib ?small ''thumb.png'' COMPRESSION_QUALITY = Encoded ''PNG'' ''RGB''"
    using 6 7 by (simp add: MAX_IMAGE_WIDTH_def)
  from s[THEN conjunct1, rule_format,
      where d = ?f and img = ?small and b = "''PNG''" and m = "''RGB''", OF this, THEN conjunct2]
  have c: "dimensions (fst (compress_image sample_lib ''thumb.png'' MAX_IMAGE_WIDTH
      COMPRESSION_QUALITY sample_world)) ''thumb.png'' = Some (800, 600)"
    by simp
  show ?thesis
    by (intro conjI) (fact 1 2 3 4 5 6 7 a c b[THEN conjunct1] b[THEN conjunct2])+
qed

text \<open>
  Counterexample to C4 as stated. The sample PNG of 2048 by 1 pixels is wider than the
  maximum; its computed height is \<open>int(1.0 * 0.5) = 0\<close>, so \<open>resize\<close> raises and the file
  keeps its width of 2048 instead of getting the maximum. The sample palette image of 640
  by 480 pixels is not wider than the maximum, but its name ends in .jpeg and the JPEG
  encoder refuses the mode after the file has been opened for writing: the file is left
  empty, with no dimensions.
\<close>

theorem compress_image_resize_counterexample:
  "dimensions sample_world ''flat.png'' = Some (2048, 1) \<and>
   MAX_IMAGE_WIDTH < 2048 \<and>
   dimensions (fst (compress_image sample_lib ''flat.png'' MAX_IMAGE_WIDTH COMPRESSION_QUALITY
      sample_world)) ''flat.png'' = Some (2048, 1) \<and>
   dimensions sample_world ''logo.jpeg'' = Some (640, 480) \<and>
   640 \<le> MAX_IMAGE_WIDTH \<and>
   lookup (fst (compress_image sample_lib ''logo.jpeg'' MAX_IMAGE_WIDTH COMPRESSION_QUALITY
      sample_world)) ''logo.jpeg'' = Some (File \<lparr>raw = [], picture = None\<rparr>) \<and>
   dimensions (fst (compress_image sample_lib ''logo.jpeg'' MAX_IMAGE_WIDTH COMPRESSION_QUALITY
      sample_world)) ''logo.jpeg'' = None"
  by code_simp

text \<open>
  Claim C5. In local directory mode the paths passed on for processing are exactly the
  listed names that end, case-insensitively, with one of .png, .jpg, .jpeg, .gif, .bmp,
  .tiff, in listing order, and the run returns one record per such name. In particular a
  directory that lists one name ending in .jpg and one ending in .txt, in either order,
  yields exactly one record, whose filename is the .jpg name.
\<close>

theorem local_directory_selects_by_extension:
  "IMAGE_EXTENSIONS = [''.png'', ''.jpg'', ''.jpeg'', ''.gif'', ''.bmp'', ''.tiff''] \<and>
   scan_directory src names =
     map (path_join src)
       (filter (\<lambda>f. \<exists>ext \<in> set IMAGE_EXTENSIONS. \<exists>stem suf. f = stem @ suf \<and> lower suf = ext)
          names) \<and>
   (credentials_found w \<and> \<not> colab w \<and> lookup w (strip (stdin w)) = Some (Dir names) \<longrightarrow>
      (\<exists>w' recs. main lib w = (w', Inr recs) \<and>
         map (\<lambda>m. map_of m ''filename'') recs =
           map (\<lambda>p. Some (basename p)) (scan_directory (strip (stdin w)) names))) \<and>
   (\<forall>jpg doc. credentials_found w \<and> \<not> colab w
        \<and> lookup w (strip (stdin w)) = Some (Dir names)
        \<and> (names = [jpg, doc] \<or> names = [doc, jpg])
        \<and> endswith (lower jpg) ''.jpg'' \<and> endswith (lower doc) ''.txt''
        \<and> CHR ''/'' \<notin> set jpg \<longrightarrow>
      (\<exists>w' d t. main lib w =
          (w', Inr [[(''filename'', jpg), (''description'', d), (''tags'', t)]])))"
proof (intro conjI allI impI)
  show "IMAGE_EXTENSIONS = [''.png'', ''.jpg'', ''.jpeg'', ''.gif'', ''.bmp'', ''.tiff'']"
    by (simp add: IMAGE_EXTENSIONS_def)
next
  show "scan_directory src names =
     map (path_join src)
       (filter (\<lambda>f. \<exists>ext \<in> set IMAGE_EXTENSIONS. \<exists>stem suf. f = stem @ suf \<and> lower suf = ext)
          names)"
    by (simp only: scan_directory_def endswith_any_iff)
next
  assume "credentials_found w \<and> \<not> colab w \<and> lookup w (strip (stdin w)) = Some (Dir names)"
  then show "\<exists>w' recs. main lib w = (w', Inr recs) \<and>
         map (\<lambda>m. map_of m ''filename'') recs =
           map (\<lambda>p. Some (basename p)) (scan_directory (strip (stdin w)) names)"
    using main_local_directory_records[of w names lib] by simp
next
  fix jpg doc
  assume a: "credentials_found w \<and> \<not> colab w
        \<and> lookup w (strip (stdin w)) = Some (Dir names)
        \<and> (names = [jpg, doc] \<or> names = [doc, jpg])
        \<and> endswith (lower jpg) ''.jpg'' \<and> endswith (lower doc) ''.txt''
        \<and> CHR ''/'' \<notin> set jpg"
  then have "scan_directory (strip (stdin w)) names = [path_join (strip (stdin w)) jpg]"
    using txt_not_image[of doc] jpg_is_image[of jpg] by (auto simp: scan_directory_def)
  from main_one_image[OF _ _ _ this, of lib] a basename_path_join[of jpg "strip (stdin w)"]
  show "\<exists>w' d t. main lib w =
          (w', Inr [[(''filename'', jpg), (''description'', d), (''tags'', t)]])"
    by auto
qed

theorem local_directory_selects_by_extension_witness:
  "credentials_found sample_world \<and> \<not> colab sample_world \<and>
   lookup sample_world (strip (stdin sample_world)) = Some (Dir [''a.jpg'', ''notes.txt'']) \<and>
   endswith (lower ''a.jpg'') ''.jpg'' \<and> endswith (lower ''notes.txt'') ''.txt'' \<and>
   CHR ''/'' \<notin> set ''a.jpg'' \<and>
   (\<exists>w' d t. main sample_lib sample_world =
      (w', Inr [[(''filename'', ''a.jpg''), (''description'', d), (''tags'', t)]])) \<and>
   snd (main sample_lib sample_world) =
     Inr [[(''filename'', ''a.jpg''), (''description'', ''a cat''), (''tags'', ''Cat, Pet'')]]"
proof -
  have s: "strip (stdin sample_world) = ''pics''"
    by (simp add: sample_world_def strip_def is_space_def)
  have 1: "credentials_found sample_world"
    by (simp add: credentials_found_def path_exists_def sample_defs)
  have 2: "\<not> colab sample_world" by (simp add: sample_world_def)
  have 3: "lookup sample_world (strip (stdin sample_world)) = Some (Dir [''a.jpg'', ''notes.txt''])"
    unfolding s by (simp add: sample_defs)
  have 4: "endswith (lower ''a.jpg'') ''.jpg''" "endswith (lower ''notes.txt'') ''.txt''"
    by (simp_all add: endswith_def lower_def lower_char_def)
  have 5: "CHR ''/'' \<notin> set ''a.jpg''" by simp
  from local_directory_selects_by_extension[of "''pics''" "[''a.jpg'', ''notes.txt'']" sample_world sample_lib]
  have "\<forall>jpg doc. credentials_found sample_world \<and> \<not> colab sample_world
        \<and> lookup sample_world (strip (stdin sample_world)) = Some (Dir [''a.jpg'', ''notes.txt''])
        \<and> ([''a.jpg'', ''notes.txt''] = [jpg, doc] \<or> [''a.jpg'', ''notes.txt''] = [doc, jpg])
        \<and> endswith (lower jpg) ''.jpg'' \<and> endswith (lower doc) ''.txt''
        \<and> CHR ''/'' \<notin> set jpg \<longrightarrow>
      (\<exists>w' d t. main sample_lib sample_world =
          (w', Inr [[(''filename'', jpg), (''description'', d), (''tags'', t)]]))"
    by blast
  from this[rule_format, of "''a.jpg''" "''notes.txt''"] 1 2 3 4 5
  have "\<exists>w' d t. main sample_lib sample_world =
      (w', Inr [[(''filename'', ''a.jpg''), (''description'', d), (''tags'', t)]])"
    by simp
  with 1 2 3 4 5 main_sample_world show ?thesis by simp
qed

text \<open>
  Claim C6 (as amended). If \<open>setup_google_credentials\<close> returns \<open>False\<close>, \<open>main\<close> stops in
  the state the setup left, with no record. If only the description key is absent, a run
  of \<open>main\<close> sends no request to the description service and every record's description
  is the missing-key sentinel or the skipped sentinel. The run is the full run, in each of
  the three ways \<open>main\<close> finds its images: pointed at a directory it returns one record
  per selected name, in listing order; pointed at a single file with an accepted
  extension it returns the record of that file; and in a notebook whose upload returns,
  it returns one record per uploaded name whose path can be written, in upload order.
  A record carries the missing-key sentinel exactly when the file left by the normalizer
  can be read and its base64 text is not empty, the skipped sentinel otherwise.
\<close>

theorem main_credential_and_key:
  "(\<forall>ws. setup_google_credentials w = (ws, Inr False) \<longrightarrow> main lib w = (ws, Inr [])) \<and>
   (key_absent w \<longrightarrow>
      (\<forall>w' recs. main lib w = (w', Inr recs) \<longrightarrow>
         astica_log w' = astica_log w \<and> list_all degraded recs)) \<and>
   (\<forall>ws names. key_absent w \<and> setup_google_credentials w = (ws, Inr True) \<and> \<not> colab ws
        \<and> lookup ws (strip (stdin ws)) = Some (Dir names) \<longrightarrow>
      (\<exists>w' recs. main lib w = (w', Inr recs) \<and>
         map (\<lambda>m. map_of m ''filename'') recs =
           map (\<lambda>p. Some (basename p)) (scan_directory (strip (stdin ws)) names))) \<and>
   (\<forall>ws. key_absent w \<and> setup_google_credentials w = (ws, Inr True) \<and> \<not> colab ws
        \<and> isfile ws (strip (stdin ws))
        \<and> endswith_any (lower (strip (stdin ws))) IMAGE_EXTENSIONS \<longrightarrow>
      (\<exists>w' d t. main lib w =
         (w', Inr [[(''filename'', basename (strip (stdin ws))),
                    (''description'', d), (''tags'', t)]]))) \<and>
   (\<forall>ws wu ups. key_absent w \<and> setup_google_credentials w = (ws, Inr True) \<and> colab ws
        \<and> files_upload ws = (wu, Inr ups) \<longrightarrow>
      (\<exists>w' recs. main lib w = (w', Inr recs) \<and>
         map (\<lambda>m. map_of m ''filename'') recs =
           map (\<lambda>name. Some (basename (path_join (cwd wu) name)))
             (filter (\<lambda>name. writable wu (path_join (cwd wu) name)) (map fst ups)))) \<and>
   (key_absent w \<longrightarrow>
      (\<forall>p w' m. process_image_metadata lib p w = (w', Inr m) \<longrightarrow>
         map_of m ''description'' =
           Some (case lookup w' p of
                   Some (File d) \<Rightarrow>
                     if b64encode lib (raw d) = []
                     then ''Astica processing skipped (image not available for base64)''
                     else ''Astica API key not configured''
                 | _ \<Rightarrow> ''Astica processing skipped (image not available for base64)'')))"
proof (intro conjI allI impI)
  fix ws assume "setup_google_credentials w = (ws, Inr False)"
  then show "main lib w = (ws, Inr [])" by (rule main_aborts)
next
  fix w' recs
  assume k: "key_absent w" and m: "main lib w = (w', Inr recs)"
  have "silent (astica_log w) w" using k by (simp add: silent_def)
  from hoareD[OF silent_main this m]
  show "astica_log w' = astica_log w" and "list_all degraded recs"
    by (simp_all add: silent_def)
next
  fix ws names
  assume "key_absent w \<and> setup_google_credentials w = (ws, Inr True) \<and> \<not> colab ws
        \<and> lookup ws (strip (stdin ws)) = Some (Dir names)"
  then show "\<exists>w' recs. main lib w = (w', Inr recs) \<and>
         map (\<lambda>m. map_of m ''filename'') recs =
           map (\<lambda>p. Some (basename p)) (scan_directory (strip (stdin ws)) names)"
    using main_directory_records[of w ws names lib] by simp
next
  fix ws
  assume a: "key_absent w \<and> setup_google_credentials w = (ws, Inr True) \<and> \<not> colab ws
        \<and> isfile ws (strip (stdin ws))
        \<and> endswith_any (lower (strip (stdin ws))) IMAGE_EXTENSIONS"
  then have "main lib w = run_pipeline lib [strip (stdin ws)] [] ws"
    by (intro main_single_file) simp_all
  with run_pipeline_one[of lib "strip (stdin ws)" "[]" ws]
  show "\<exists>w' d t. main lib w =
         (w', Inr [[(''filename'', basename (strip (stdin ws))),
                    (''description'', d), (''tags'', t)]])"
    by simp
next
  fix ws wu ups
  assume "key_absent w \<and> setup_google_credentials w = (ws, Inr True) \<and> colab ws
        \<and> files_upload ws = (wu, Inr ups)"
  then show "\<exists>w' recs. main lib w = (w', Inr recs) \<and>
         map (\<lambda>m. map_of m ''filename'') recs =
           map (\<lambda>name. Some (basename (path_join (cwd wu) name)))
             (filter (\<lambda>name. writable wu (path_join (cwd wu) name)) (map fst ups))"
    using main_notebook_records[of w ws wu ups lib] by simp
next
  fix p w' m
  assume "key_absent w" and "process_image_metadata lib p w = (w', Inr m)"
  then show "map_of m ''description'' =
           Some (case lookup w' p of
                   Some (File d) \<Rightarrow>
                     if b64encode lib (raw d) = []
                     then ''Astica processing skipped (image not available for base64)''
                     else ''Astica API key not configured''
                 | _ \<Rightarrow> ''Astica processing skipped (image not available for base64)'')"
    by (rule process_image_metadata_without_key)
qed

theorem main_credential_and_key_witness:
  "key_absent keyless_world \<and>
   setup_google_credentials keyless_world = (keyless_world, Inr True) \<and>
   \<not> colab keyless_world \<and>
   lookup keyless_world (strip (stdin keyless_world)) =
     Some (Dir [''b.JPG'', ''locked.jpg'', ''album.png'']) \<and>
   snd (main sample_lib keyless_world) =
     Inr [[(''filename'', ''b.JPG''),
           (''description'', ''Astica API key not configured''),
           (''tags'', ''Cat, Pet'')],
          [(''filename'', ''locked.jpg''),
           (''description'', ''Astica processing skipped (image not available for base64)''),
           (''tags'', ''Google Vision tags failed'')],
          [(''filename'', ''album.png''),
           (''description'', ''Astica processing skipped (image not available for base64)''),
           (''tags'', ''Google Vision tags failed'')]] \<and>
   astica_log (fst (main sample_lib keyless_world)) = astica_log keyless_world \<and>
   list_all degraded
     [[(''filename'', ''b.JPG''),
       (''description'', ''Astica API key not configured''),
       (''tags'', ''Cat, Pet'')],
      [(''filename'', ''locked.jpg''),
       (''description'', ''Astica processing skipped (image not available for base64)''),
       (''tags'', ''Google Vision tags failed'')],
      [(''filename'', ''album.png''),
       (''description'', ''Astica processing skipped (image not available for base64)''),
       (''tags'', ''Google Vision tags failed'')]] \<and>
   (\<exists>w' recs. main sample_lib keyless_world = (w', Inr recs) \<and>
      map (\<lambda>m. map_of m ''filename'') recs =
        [Some ''b.JPG'', Some ''locked.jpg'', Some ''album.png'']) \<and>
   key_absent keyless_file_world \<and>
   setup_google_credentials keyless_file_world = (keyless_file_world, Inr True) \<and>
   \<not> colab keyless_file_world \<and>
   isfile keyless_file_world (strip (stdin keyless_file_world)) \<and>
   endswith_any (lower (strip (stdin keyless_file_world))) IMAGE_EXTENSIONS \<and>
   (\<exists>w' d t. main sample_lib keyless_file_world =
      (w', Inr [[(''filename'', ''thumb.png''), (''description'', d), (''tags'', t)]])) \<and>
   snd (main sample_lib keyless_file_world) =
     Inr [[(''filename'', ''thumb.png''),
           (''description'', ''Astica API key not configured''),
           (''tags'', ''Cat, Pet'')]] \<and>
   key_absent keyless_notebook_world \<and>
   setup_google_credentials keyless_notebook_world = (keyless_notebook_world, Inr True) \<and>
   colab keyless_notebook_world \<and>
   snd (files_upload keyless_notebook_world) =
     Inr [(''new.png'', \<lparr>raw = ''PNG'', picture = Some \<lparr>width = 32, height = 32,
             mode = ''RGB'', load_error = None\<rparr>\<rparr>),
          (''mixed'', \<lparr>raw = ''PNG'', picture = None\<rparr>)] \<and>
   (\<exists>w' recs. main sample_lib keyless_notebook_world = (w', Inr recs) \<and>
      map (\<lambda>m. map_of m ''filename'') recs = [Some ''new.png'']) \<and>
   snd (main sample_lib keyless_notebook_world) =
     Inr [[(''filename'', ''new.png''),
           (''description'', ''Astica API key not configured''),
           (''tags'', ''Cat, Pet'')]]"
proof -
  let ?recs = "[[(''filename'', ''b.JPG''),
           (''description'', ''Astica API key not configured''),
           (''tags'', ''Cat, Pet'')],
          [(''filename'', ''locked.jpg''),
           (''description'', ''Astica processing skipped (image not available for base64)''),
           (''tags'', ''Google Vision tags failed'')],
          [(''filename'', ''album.png''),
           (''description'', ''Astica processing skipped (image not available for base64)''),
           (''tags'', ''Google Vision tags failed'')]]"
  let ?ups = "[(''new.png'', \<lparr>raw = ''PNG'', picture = Some \<lparr>width = 32, height = 32,
             mode = ''RGB'', load_error = None\<rparr>\<rparr>),
          (''mixed'', \<lparr>raw = ''PNG'', picture = None\<rparr>)]"
  note t = main_credential_and_key[where lib = sample_lib]
  have k: "key_absent keyless_world"
    by (simp add: key_absent_def keyless_world_def sample_world_def)
  have c: "credentials_found keyless_world"
    by (simp add: credentials_found_def path_exists_def keyless_world_def sample_defs)
  have s: "setup_google_credentials keyless_world = (keyless_world, Inr True)"
    using c by (rule setup_found)
  have l: "\<not> colab keyless_world" by (simp add: keyless_world_def sample_world_def)
  have i: "strip (stdin keyless_world) = ''mixed''"
    by (simp add: keyless_world_def sample_world_def strip_def is_space_def)
  have d: "lookup keyless_world (strip (stdin keyless_world)) =
     Some (Dir [''b.JPG'', ''locked.jpg'', ''album.png''])"
    unfolding i by (simp add: keyless_world_def sample_defs)
  have m: "main sample_lib keyless_world = (fst (main sample_lib keyless_world), Inr ?recs)"
    using main_keyless_world by (metis prod.collapse)
  from t[where w = keyless_world, THEN conjunct2, THEN conjunct1, rule_format, OF k m]
  have a1: "astica_log (fst (main sample_lib keyless_world)) = astica_log keyless_world"
    and a2: "list_all degraded ?recs"
    by simp_all
  have sc: "map (\<lambda>p. Some (basename p))
      (scan_directory ''mixed'' [''b.JPG'', ''locked.jpg'', ''album.png''])
      = [Some ''b.JPG'', Some ''locked.jpg'', Some ''album.png'']"
    by code_simp
  from t[where w = keyless_world, THEN conjunct2, THEN conjunct2, THEN conjunct1, rule_format,
      where ws = keyless_world and names = "[''b.JPG'', ''locked.jpg'', ''album.png'']"]
    k s l d
  have a3: "\<exists>w' recs. main sample_lib keyless_world = (w', Inr recs) \<and>
      map (\<lambda>m. map_of m ''filename'') recs =
        [Some ''b.JPG'', Some ''locked.jpg'', Some ''album.png'']"
    unfolding i sc by simp
  have fk: "key_absent keyless_file_world"
    by (simp add: key_absent_def keyless_file_world_def keyless_world_def sample_world_def)
  have fc: "credentials_found keyless_file_world"
    by (simp add: credentials_found_def path_exists_def keyless_file_world_def
        keyless_world_def sample_defs)
  have fs: "setup_google_credentials keyless_file_world = (keyless_file_world, Inr True)"
    using fc by (rule setup_found)
  have fl: "\<not> colab keyless_file_world"
    by (simp add: keyless_file_world_def keyless_world_def sample_world_def)
  have fi: "strip (stdin keyless_file_world) = ''thumb.png''"
    by (simp add: keyless_file_world_def strip_def is_space_def)
  have ff: "isfile keyless_file_world (strip (stdin keyless_file_world))"
    unfolding fi by (simp add: isfile_def keyless_file_world_def keyless_world_def sample_defs)
  have fe: "endswith_any (lower (strip (stdin keyless_file_world))) IMAGE_EXTENSIONS"
    unfolding fi
    by (simp add: endswith_any_def IMAGE_EXTENSIONS_def endswith_def lower_def lower_char_def)
  have fb: "basename ''thumb.png'' = ''thumb.png''" by (simp add: basename_def)
  from t[where w = keyless_file_world, THEN conjunct2, THEN conjunct2, THEN conjunct2,
      THEN conjunct1, rule_format, where ws = keyless_file_world] fk fs fl ff fe
  have b1: "\<exists>w' d t. main sample_lib keyless_file_world =
      (w', Inr [[(''filename'', ''thumb.png''), (''description'', d), (''tags'', t)]])"
    unfolding fi fb by simp
  let ?wu = "fst (files_upload keyless_notebook_world)"
  have nk: "key_absent keyless_notebook_world"
    by (simp add: key_absent_def keyless_notebook_world_def keyless_world_def sample_world_def)
  have nc: "credentials_found keyless_notebook_world"
    by (simp add: credentials_found_def path_exists_def keyless_notebook_world_def
        keyless_world_def sample_defs)
  have ns: "setup_google_credentials keyless_notebook_world = (keyless_notebook_world, Inr True)"
    using nc by (rule setup_found)
  have nl: "colab keyless_notebook_world"
    by (simp add: keyless_notebook_world_def)
  have nu: "snd (files_upload keyless_notebook_world) = Inr ?ups"
    by (simp add: files_upload_def keyless_notebook_world_def)
  then have nu': "files_upload keyless_notebook_world = (?wu, Inr ?ups)"
    by (metis prod.collapse)
  have nf: "map (\<lambda>name. Some (basename (path_join (cwd ?wu) name)))
      (filter (\<lambda>name. writable ?wu (path_join (cwd ?wu) name)) (map fst ?ups))
      = [Some ''new.png'']"
    by code_simp
  from t[where w = keyless_notebook_world, THEN conjunct2, THEN conjunct2, THEN conjunct2,
      THEN conjunct2, THEN conjunct1, rule_format,
      where ws = keyless_notebook_world and wu = ?wu and ups = ?ups] nk ns nl nu'
  have c1: "\<exists>w' recs. main sample_lib keyless_notebook_world = (w', Inr recs) \<and>
      map (\<lambda>m. map_of m ''filename'') recs = [Some ''new.png'']"
    unfolding nf by simp
  show ?thesis
    by (intro conjI)
       (fact k s l d main_keyless_world a1 a2 a3 fk fs fl ff fe b1 main_keyless_file_world
          nk ns nl nu c1 main_keyless_notebook_world)+
qed

text \<open>
  Counterexample to C6 as stated: without the description key, the records of a file
  that cannot be opened and of a subdirectory carry the skipped sentinel, not the
  missing-key sentinel.
\<close>

theorem main_missing_key_counterexample:
  "environ keyless_world ''ASTICA_API_KEY'' = None \<and>
   snd (setup_google_credentials keyless_world) = Inr True \<and>
   snd (main sample_lib keyless_world) =
     Inr [[(''filename'', ''b.JPG''),
           (''description'', ''Astica API key not configured''),
           (''tags'', ''Cat, Pet'')],
          [(''filename'', ''locked.jpg''),
           (''description'', ''Astica processing skipped (image not available for base64)''),
           (''tags'', ''Google Vision tags failed'')],
          [(''filename'', ''album.png''),
           (''description'', ''Astica processing skipped (image not available for base64)''),
           (''tags'', ''Google Vision tags failed'')]] \<and>
   ''Astica processing skipped (image not available for base64)'' \<noteq>
     ''Astica API key not configured''"
  by code_simp

text \<open>
  Claim C7 (as amended). Normalization is idempotent on dimensions: an image whose width
  is at most the maximum keeps its width and height under \<open>compress_image\<close>, unless saving
  it breaks the file (the encoder raises after the file has been opened for writing).
  In particular, when the \<open>try\<close> block of a first pass runs to its end, that pass returns
  in the state the block left, the file then holds an image whose width is at most the
  maximum, and a second pass leaves the dimensions of that image as they are, again
  unless saving it breaks the file.
\<close>

theorem compress_image_idempotent_dimensions:
  "(\<forall>d img. lookup w p = Some (File d) \<and> picture d = Some img \<and> width img \<le> max_width
        \<and> \<not> breaks_file lib img p quality \<longrightarrow>
      dimensions (fst (compress_image lib p max_width quality w)) p
        = Some (width img, height img)) \<and>
   (\<forall>w1. compress_image_try lib p max_width quality w = (w1, Inr ()) \<longrightarrow>
      compress_image lib p max_width quality w = (w1, Inr ()) \<and>
      (\<exists>d1 img1. lookup w1 p = Some (File d1) \<and> picture d1 = Some img1
         \<and> width img1 \<le> max_width
         \<and> (\<not> breaks_file lib img1 p quality \<longrightarrow>
              dimensions (fst (compress_image lib p max_width quality w1)) p
                = dimensions w1 p)))"
proof (intro conjI allI impI)
  fix d img
  assume "lookup w p = Some (File d) \<and> picture d = Some img \<and> width img \<le> max_width
        \<and> \<not> breaks_file lib img p quality"
  then show "dimensions (fst (compress_image lib p max_width quality w)) p
        = Some (width img, height img)"
    by (intro compress_image_keeps_narrow[of w p d]) simp_all
next
  fix w1
  assume t: "compress_image_try lib p max_width quality w = (w1, Inr ())"
  then show "compress_image lib p max_width quality w = (w1, Inr ())"
    by (simp add: compress_image_handlers)
  from compress_image_try_completed[OF t] obtain d1 img1 where
    d: "lookup w1 p = Some (File d1)" "picture d1 = Some img1" "width img1 \<le> max_width"
    by blast
  have "dimensions (fst (compress_image lib p max_width quality w1)) p = dimensions w1 p"
    if "\<not> breaks_file lib img1 p quality"
    using compress_image_keeps_narrow[OF d that] d(1,2) by (simp add: dimensions_def)
  with d show "\<exists>d1 img1. lookup w1 p = Some (File d1) \<and> picture d1 = Some img1
         \<and> width img1 \<le> max_width
         \<and> (\<not> breaks_file lib img1 p quality \<longrightarrow>
              dimensions (fst (compress_image lib p max_width quality w1)) p
                = dimensions w1 p)"
    by blast
qed

theorem compress_image_idempotent_dimensions_witness:
  "lookup sample_world ''thumb.png'' =
     Some (File \<lparr>raw = ''PNG'', picture = Some \<lparr>width = 800, height = 600,
       mode = ''RGB'', load_error = None\<rparr>\<rparr>) \<and>
   (800::int) \<le> MAX_IMAGE_WIDTH \<and>
   \<not> breaks_file sample_lib \<lparr>width = 800, height = 600, mode = ''RGB'', load_error = None\<rparr>
       ''thumb.png'' COMPRESSION_QUALITY \<and>
   dimensions (fst (compress_image sample_lib ''thumb.png'' MAX_IMAGE_WIDTH COMPRESSION_QUALITY
      sample_world)) ''thumb.png'' = Some (800, 600) \<and>
   snd (compress_image_try sample_lib ''thumb.png'' MAX_IMAGE_WIDTH COMPRESSION_QUALITY
      sample_world) = Inr () \<and>
   dimensions (fst (compress_image sample_lib ''thumb.png'' MAX_IMAGE_WIDTH COMPRESSION_QUALITY
      (fst (compress_image sample_lib ''thumb.png'' MAX_IMAGE_WIDTH COMPRESSION_QUALITY
         sample_world)))) ''thumb.png'' = Some (800, 600)"
proof -
  let ?img = "\<lparr>width = 800, height = 600, mode = ''RGB'', load_error = None\<rparr>"
  let ?d = "\<lparr>raw = ''PNG'', picture = Some ?img\<rparr>"
  let ?v = "fst (compress_image_try sample_lib ''thumb.png'' MAX_IMAGE_WIDTH COMPRESSION_QUALITY
      sample_world)"
  have 1: "lookup sample_world ''thumb.png'' = Some (File ?d)"
    by (simp add: sample_defs)
  have 2: "(800::int) \<le> MAX_IMAGE_WIDTH" by (simp add: MAX_IMAGE_WIDTH_def)
  have 3: "\<not> breaks_file sample_lib ?img ''thumb.png'' COMPRESSION_QUALITY"
    by (simp add: breaks_file_def sample_lib_def sample_encode_def endswith_any_def
        endswith_def lower_def lower_char_def)
  note t = compress_image_idempotent_dimensions[where w = sample_world
      and p = "''thumb.png''" and max_width = MAX_IMAGE_WIDTH and lib = sample_lib
      and quality = COMPRESSION_QUALITY]
  from t[THEN conjunct1, rule_format, where d = ?d and img = ?img] 1 2 3
  have a: "dimensions (fst (compress_image sample_lib ''thumb.png'' MAX_IMAGE_WIDTH
      COMPRESSION_QUALITY sample_world)) ''thumb.png'' = Some (800, 600)"
    by simp
  have b: "snd (compress_image_try sample_lib ''thumb.png'' MAX_IMAGE_WIDTH COMPRESSION_QUALITY
      sample_world) = Inr ()"
    by code_simp
  then have b': "compress_image_try sample_lib ''thumb.png'' MAX_IMAGE_WIDTH COMPRESSION_QUALITY
      sample_world = (?v, Inr ())"
    by (metis prod.collapse)
  have v: "lookup ?v ''thumb.png'' = Some (File ?d)"
    by code_simp
  from t[THEN conjunct2, rule_format, OF b'] obtain d1 img1 where
    first: "compress_image sample_lib ''thumb.png'' MAX_IMAGE_WIDTH COMPRESSION_QUALITY
      sample_world = (?v, Inr ())"
    and x: "lookup ?v ''thumb.png'' = Some (File d1)" "picture d1 = Some img1"
      "\<not> breaks_file sample_lib img1 ''thumb.png'' COMPRESSION_QUALITY \<longrightarrow>
         dimensions (fst (compress_image sample_lib ''thumb.png'' MAX_IMAGE_WIDTH
           COMPRESSION_QUALITY ?v)) ''thumb.png'' = dimensions ?v ''thumb.png''"
    by blast
  from x(1) v have "d1 = ?d" by simp
  with x(2) have "img1 = ?img" by simp
  with x(3) 3 have "dimensions (fst (compress_image sample_lib ''thumb.png'' MAX_IMAGE_WIDTH
      COMPRESSION_QUALITY ?v)) ''thumb.png'' = dimensions ?v ''thumb.png''"
    by simp
  also have "dimensions ?v ''thumb.png'' = Some (800, 600)"
    using v by (simp add: dimensions_def)
  finally have c: "dimensions (fst (compress_image sample_lib ''thumb.png'' MAX_IMAGE_WIDTH
      COMPRESSION_QUALITY (fst (compress_image sample_lib ''thumb.png'' MAX_IMAGE_WIDTH
         COMPRESSION_QUALITY sample_world)))) ''thumb.png'' = Some (800, 600)"
    by (simp add: first)
  show ?thesis
    by (intro conjI) (fact 1 2 3 a b c)+
qed

text \<open>
  Counterexample to C7 as stated. The sample file \<open>alpha.jpg\<close> holds an image of 800 by
  600 pixels with an alpha channel, not wider than the maximum. Its name selects the
  JPEG encoder, which refuses the mode after the file has been opened for writing: the
  pass leaves the file empty, so its width and height are not what they were.
\<close>

theorem compress_image_idempotent_counterexample:
  "dimensions sample_world ''alpha.jpg'' = Some (800, 600) \<and>
   800 \<le> MAX_IMAGE_WIDTH \<and>
   dimensions (fst (compress_image sample_lib ''alpha.jpg'' MAX_IMAGE_WIDTH COMPRESSION_QUALITY
      sample_world)) ''alpha.jpg'' = None \<and>
   dimensions (fst (compress_image sample_lib ''alpha.jpg'' MAX_IMAGE_WIDTH COMPRESSION_QUALITY
      sample_world)) ''alpha.jpg'' \<noteq> Some (800, 600)"
  by code_simp

text \<open>
  Claim C8. When \<open>convert_image_to_base64\<close> returns \<open>None\<close>, \<open>process_image_metadata\<close>
  ends in the state the tag client left (the description client is not run, and the log
  of the description service is the one before the call), the description field is the
  skipped sentinel, and the tags field is what the tag client returned.
\<close>

theorem process_image_metadata_conversion_failed:
  assumes "compress_image lib p MAX_IMAGE_WIDTH COMPRESSION_QUALITY w = (w1, r)"
      and "get_image_tags_from_google p w1 = (w2, Inr tags)"
      and "convert_image_to_base64 lib p w2 = (w3, Inr None)"
  shows "process_image_metadata lib p w =
           (w2, Inr [(''filename'', basename p),
                     (''description'', ''Astica processing skipped (image not available for base64)''),
                     (''tags'', tags)])
         \<and> astica_log w2 = astica_log w"
proof -
  from compress_image_returns[of lib p MAX_IMAGE_WIDTH COMPRESSION_QUALITY w] assms(1)
  have r: "r = Inr ()" by auto
  from convert_returns[of lib p w2] assms(3) have w3: "w3 = w2" by auto
  have "astica_log w2 = astica_log w"
    using compress_image_frame[OF assms(1)] tags_frame[OF assms(2)] by simp
  then show ?thesis
    using assms r w3 by (simp add: process_image_metadata_unfold)
qed

theorem process_image_metadata_conversion_failed_witness:
  "compress_image sample_lib ''locked.jpg'' MAX_IMAGE_WIDTH COMPRESSION_QUALITY sample_world
     = (sample_world, Inr ()) \<and>
   get_image_tags_from_google ''locked.jpg'' sample_world
     = (sample_world, Inr ''Google Vision tags failed'') \<and>
   convert_image_to_base64 sample_lib ''locked.jpg'' sample_world = (sample_world, Inr None) \<and>
   process_image_metadata sample_lib ''locked.jpg'' sample_world =
     (sample_world, Inr [(''filename'', ''locked.jpg''),
        (''description'', ''Astica processing skipped (image not available for base64)''),
        (''tags'', ''Google Vision tags failed'')])"
proof -
  have l: "lookup sample_world ''locked.jpg'' = Some NoAccess"
    by (simp add: sample_defs)
  have 1: "compress_image sample_lib ''locked.jpg'' MAX_IMAGE_WIDTH COMPRESSION_QUALITY sample_world
     = (sample_world, Inr ())"
    using l by (simp add: compress_image_def compress_image_try_def prog_defs image_open_def
        is_FileNotFoundError_def is_Exception_def)
  have 2: "get_image_tags_from_google ''locked.jpg'' sample_world
     = (sample_world, Inr ''Google Vision tags failed'')"
    using l by (simp add: tags_unfold) (simp add: sample_world_def)
  have 3: "convert_image_to_base64 sample_lib ''locked.jpg'' sample_world = (sample_world, Inr None)"
    using l by (simp add: convert_image_to_base64_def prog_defs read_file_def
        is_FileNotFoundError_def is_Exception_def)
  have 4: "basename ''locked.jpg'' = ''locked.jpg''" by (simp add: basename_def)
  from process_image_metadata_conversion_failed[OF 1 2 3] 1 2 3 4 show ?thesis by simp
qed

text \<open>
  Claim C9 (as amended). \<open>process_image_metadata\<close> always returns a record of filename,
  description and tags whose description and tags are not empty, and so are the strings
  both provider clients return on every path. An empty successful result is replaced by
  a sentinel: the tag client returns "no tags found" when the joined label text is
  empty, which is the case exactly for zero labels and for a single label with an empty
  description; the description client returns "no description available" for a missing
  or whitespace-only caption.
\<close>

theorem process_image_metadata_fields_nonempty:
  "(\<exists>w' d t. process_image_metadata lib p w =
       (w', Inr [(''filename'', basename p), (''description'', d), (''tags'', t)])
       \<and> d \<noteq> [] \<and> t \<noteq> []) \<and>
   (\<exists>w' s. get_image_tags_from_google p w = (w', Inr s) \<and> s \<noteq> []) \<and>
   (\<exists>w' s. get_description_from_astica lib b w = (w', Inr s) \<and> s \<noteq> []) \<and>
   (\<forall>d response. vision_client w = None \<and> lookup w p = Some (File d)
        \<and> vision_service w (length (vision_log w)) (raw d) = Inr response
        \<and> error_message response = []
        \<and> join '', '' (map description (label_annotations response)) = [] \<longrightarrow>
      snd (get_image_tags_from_google p w) = Inr ''No tags found by Google Vision'') \<and>
   (\<forall>ds. (join '', '' ds = []) = (ds = [] \<or> ds = [[]])) \<and>
   (\<forall>tkn resp kvs. environ w ''ASTICA_API_KEY'' = Some tkn \<and> tkn \<noteq> []
        \<and> astica_service w (length (astica_log w)) tkn b = Inr resp
        \<and> \<not> (400 \<le> status_code resp \<and> status_code resp < 600)
        \<and> json_body resp = Inr (PDict kvs)
        \<and> map_of kvs ''status'' \<noteq> Some (PStr ''error'') \<and> map_of kvs ''error'' = None
        \<and> (map_of kvs ''caption'' = None
             \<or> (\<exists>c. map_of kvs ''caption'' = Some (PStr c) \<and> strip c = [])) \<longrightarrow>
      snd (get_description_from_astica lib b w) = Inr ''No description available from Astica'')"
proof (intro conjI allI impI)
  show "\<exists>w' d t. process_image_metadata lib p w =
       (w', Inr [(''filename'', basename p), (''description'', d), (''tags'', t)])
       \<and> d \<noteq> [] \<and> t \<noteq> []"
    by (rule process_image_metadata_returns)
next
  show "\<exists>w' s. get_image_tags_from_google p w = (w', Inr s) \<and> s \<noteq> []"
    by (rule tags_returns)
next
  show "\<exists>w' s. get_description_from_astica lib b w = (w', Inr s) \<and> s \<noteq> []"
    by (rule description_returns)
next
  fix d response
  assume "vision_client w = None \<and> lookup w p = Some (File d)
        \<and> vision_service w (length (vision_log w)) (raw d) = Inr response
        \<and> error_message response = []
        \<and> join '', '' (map description (label_annotations response)) = []"
  then show "snd (get_image_tags_from_google p w) = Inr ''No tags found by Google Vision''"
    by (simp add: tags_unfold Let_def)
next
  fix ds show "(join '', '' ds = []) = (ds = [] \<or> ds = [[]])" by (rule join_comma_empty)
next
  fix tkn resp kvs
  assume "environ w ''ASTICA_API_KEY'' = Some tkn \<and> tkn \<noteq> []
        \<and> astica_service w (length (astica_log w)) tkn b = Inr resp
        \<and> \<not> (400 \<le> status_code resp \<and> status_code resp < 600)
        \<and> json_body resp = Inr (PDict kvs)
        \<and> map_of kvs ''status'' \<noteq> Some (PStr ''error'') \<and> map_of kvs ''error'' = None
        \<and> (map_of kvs ''caption'' = None
             \<or> (\<exists>c. map_of kvs ''caption'' = Some (PStr c) \<and> strip c = []))"
  then show "snd (get_description_from_astica lib b w) = Inr ''No description available from Astica''"
    by (elim conjE) (rule description_blank_caption)
qed

theorem process_image_metadata_fields_nonempty_witness:
  "vision_client sample_world = None \<and>
   lookup sample_world ''pics/a.jpg'' =
     Some (File \<lparr>raw = ''JFIF'', picture = Some \<lparr>width = 2048, height = 1000,
       mode = ''RGB'', load_error = None\<rparr>\<rparr>) \<and>
   join '', '' (map description []) = [] \<and>
   snd (get_image_tags_from_google ''pics/a.jpg''
      (sample_world\<lparr>vision_service := \<lambda>n b. Inr \<lparr>error_message = [], label_annotations = []\<rparr>\<rparr>))
     = Inr ''No tags found by Google Vision''"
proof -
  let ?w = "sample_world\<lparr>vision_service := \<lambda>n b. Inr \<lparr>error_message = [], label_annotations = []\<rparr>\<rparr>"
  have 1: "vision_client ?w = None" by (simp add: sample_world_def)
  have 2: "lookup ?w ''pics/a.jpg'' =
     Some (File \<lparr>raw = ''JFIF'', picture = Some \<lparr>width = 2048, height = 1000,
       mode = ''RGB'', load_error = None\<rparr>\<rparr>)"
    by (simp add: sample_defs)
  have 3: "vision_service ?w (length (vision_log ?w)) ''JFIF'' =
      Inr \<lparr>error_message = [], label_annotations = []\<rparr>"
    by simp
  note t = process_image_metadata_fields_nonempty[of sample_lib "''pics/a.jpg''" ?w "[]"]
  from t[THEN conjunct2, THEN conjunct2, THEN conjunct2, THEN conjunct1, rule_format, of "\<lparr>raw = ''JFIF'', picture = Some \<lparr>width = 2048, height = 1000,
       mode = ''RGB'', load_error = None\<rparr>\<rparr>"
      "\<lparr>error_message = [], label_annotations = []\<rparr>"] 1 2 3
  have "snd (get_image_tags_from_google ''pics/a.jpg'' ?w) = Inr ''No tags found by Google Vision''"
    by simp
  moreover have "vision_client sample_world = None" by (simp add: sample_world_def)
  moreover have "lookup sample_world ''pics/a.jpg'' =
     Some (File \<lparr>raw = ''JFIF'', picture = Some \<lparr>width = 2048, height = 1000,
       mode = ''RGB'', load_error = None\<rparr>\<rparr>)"
    by (simp add: sample_defs)
  ultimately show ?thesis by simp
qed

text \<open>
  Counterexample to C9 as stated: two labels whose descriptions are both empty are not
  mapped to a sentinel; the tag client returns the separator \<open>", "\<close> between them (which
  is not empty, so the record's field is not empty either).
\<close>

theorem get_image_tags_two_empty_labels_counterexample:
  "snd (get_image_tags_from_google ''pics/a.jpg''
     (sample_world\<lparr>vision_service := \<lambda>n b. Inr \<lparr>error_message = [],
        label_annotations = [\<lparr>mid = ''m1'', description = []\<rparr>,
                             \<lparr>mid = ''m2'', description = []\<rparr>]\<rparr>\<rparr>))
     = Inr '', '' \<and>
   list_all (\<lambda>l. description l = [])
     [\<lparr>mid = ''m1'', description = []\<rparr>, \<lparr>mid = ''m2'', description = []\<rparr>] \<and>
   '', '' \<noteq> ''No tags found by Google Vision'' \<and>
   '', '' \<noteq> ''Google Vision tags failed''"
  by (simp add: tags_unfold sample_defs)

text \<open>
  Claim C10. The directory scan selects by name alone: every listed name with an accepted
  extension is put on the processing list, whatever lies at that path, and when it is a
  subdirectory the run still returns a record for it.
\<close>

theorem local_directory_scan_ignores_file_type:
  "(\<forall>name. name \<in> set names \<and> endswith_any (lower name) IMAGE_EXTENSIONS \<longrightarrow>
      path_join src name \<in> set (scan_directory src names)) \<and>
   (\<forall>name sub. credentials_found w \<and> \<not> colab w
        \<and> lookup w (strip (stdin w)) = Some (Dir names)
        \<and> name \<in> set names \<and> endswith_any (lower name) IMAGE_EXTENSIONS
        \<and> lookup w (path_join (strip (stdin w)) name) = Some (Dir sub) \<longrightarrow>
      (\<exists>w' recs. main lib w = (w', Inr recs) \<and>
         Some (basename (path_join (strip (stdin w)) name))
           \<in> set (map (\<lambda>m. map_of m ''filename'') recs)))"
proof (intro conjI allI impI)
  fix name
  assume "name \<in> set names \<and> endswith_any (lower name) IMAGE_EXTENSIONS"
  then show "path_join src name \<in> set (scan_directory src names)"
    by (simp add: scan_directory_def)
next
  fix name sub
  assume a: "credentials_found w \<and> \<not> colab w
        \<and> lookup w (strip (stdin w)) = Some (Dir names)
        \<and> name \<in> set names \<and> endswith_any (lower name) IMAGE_EXTENSIONS
        \<and> lookup w (path_join (strip (stdin w)) name) = Some (Dir sub)"
  then have in_scan: "path_join (strip (stdin w)) name \<in> set (scan_directory (strip (stdin w)) names)"
    by (simp add: scan_directory_def)
  from a main_local_directory_records[of w names lib] obtain w' recs where
    r: "main lib w = (w', Inr recs)"
       "map (\<lambda>m. map_of m ''filename'') recs =
          map (\<lambda>p. Some (basename p)) (scan_directory (strip (stdin w)) names)"
    by auto
  from in_scan have "Some (basename (path_join (strip (stdin w)) name))
      \<in> set (map (\<lambda>p. Some (basename p)) (scan_directory (strip (stdin w)) names))"
    by auto
  with r(2) have "Some (basename (path_join (strip (stdin w)) name))
      \<in> set (map (\<lambda>m. map_of m ''filename'') recs)"
    by simp
  with r(1) show "\<exists>w' recs. main lib w = (w', Inr recs) \<and>
         Some (basename (path_join (strip (stdin w)) name))
           \<in> set (map (\<lambda>m. map_of m ''filename'') recs)"
    by blast
qed

theorem local_directory_scan_ignores_file_type_witness:
  "credentials_found mixed_world \<and> \<not> colab mixed_world \<and>
   lookup mixed_world (strip (stdin mixed_world)) =
     Some (Dir [''b.JPG'', ''locked.jpg'', ''album.png'']) \<and>
   ''album.png'' \<in> set [''b.JPG'', ''locked.jpg'', ''album.png''] \<and>
   endswith_any (lower ''album.png'') IMAGE_EXTENSIONS \<and>
   lookup mixed_world (path_join (strip (stdin mixed_world)) ''album.png'') = Some (Dir []) \<and>
   path_join ''mixed'' ''album.png''
     \<in> set (scan_directory ''mixed'' [''b.JPG'', ''locked.jpg'', ''album.png'']) \<and>
   (\<exists>w' recs. main sample_lib mixed_world = (w', Inr recs) \<and>
      Some ''album.png'' \<in> set (map (\<lambda>m. map_of m ''filename'') recs))"
proof -
  have s: "strip (stdin mixed_world) = ''mixed''"
    by (simp add: mixed_world_def sample_world_def strip_def is_space_def)
  have 1: "credentials_found mixed_world"
    by (simp add: credentials_found_def path_exists_def mixed_world_def sample_defs)
  have 2: "\<not> colab mixed_world" by (simp add: mixed_world_def sample_world_def)
  have 3: "lookup mixed_world (strip (stdin mixed_world)) =
     Some (Dir [''b.JPG'', ''locked.jpg'', ''album.png''])"
    unfolding s by (simp add: mixed_world_def sample_defs)
  have 4: "''album.png'' \<in> set [''b.JPG'', ''locked.jpg'', ''album.png'']" by simp
  have 5: "endswith_any (lower ''album.png'') IMAGE_EXTENSIONS"
    by (simp add: endswith_any_def IMAGE_EXTENSIONS_def endswith_def lower_def lower_char_def)
  have 6: "lookup mixed_world (path_join (strip (stdin mixed_world)) ''album.png'') = Some (Dir [])"
    unfolding s by (simp add: mixed_world_def sample_defs)
  have 7: "basename (path_join (strip (stdin mixed_world)) ''album.png'') = ''album.png''"
    unfolding s by (simp add: basename_def path_join_def startswith_def endswith_def)
  note t = local_directory_scan_ignores_file_type[of "[''b.JPG'', ''locked.jpg'', ''album.png'']"
      "''mixed''" mixed_world sample_lib]
  from t 4 5 have a: "path_join ''mixed'' ''album.png''
     \<in> set (scan_directory ''mixed'' [''b.JPG'', ''locked.jpg'', ''album.png''])"
    by blast
  from t have "\<forall>name sub. credentials_found mixed_world \<and> \<not> colab mixed_world
        \<and> lookup mixed_world (strip (stdin mixed_world)) = Some (Dir [''b.JPG'', ''locked.jpg'', ''album.png''])
        \<and> name \<in> set [''b.JPG'', ''locked.jpg'', ''album.png''] \<and> endswith_any (lower name) IMAGE_EXTENSIONS
        \<and> lookup mixed_world (path_join (strip (stdin mixed_world)) name) = Some (Dir sub) \<longrightarrow>
      (\<exists>w' recs. main sample_lib mixed_world = (w', Inr recs) \<and>
         Some (basename (path_join (strip (stdin mixed_world)) name))
           \<in> set (map (\<lambda>m. map_of m ''filename'') recs))"
    by blast
  from this[rule_format, of "''album.png''" "[]"] 1 2 3 4 5 6 7
  have b: "\<exists>w' recs. main sample_lib mixed_world = (w', Inr recs) \<and>
      Some ''album.png'' \<in> set (map (\<lambda>m. map_of m ''filename'') recs)"
    by simp
  from 1 2 3 4 5 6 a b show ?thesis by simp
qed

text \<open>
  Property X2 (the second half of claim C1, in local mode). A local run of \<open>main\<close> that
  returns no record leaves the file system and the downloads as they were, so it creates
  no CSV file; a local run never raises; and a local run on a directory in which no name
  has an accepted extension returns no record and changes nothing.
\<close>

theorem main_without_records_writes_nothing:
  "(\<forall>w'. \<not> colab w \<and> main lib w = (w', Inr []) \<longrightarrow>
      fs w' = fs w \<and> downloads w' = downloads w) \<and>
   (\<not> colab w \<longrightarrow> (\<exists>w' recs. main lib w = (w', Inr recs))) \<and>
   (\<forall>names. credentials_found w \<and> \<not> colab w
        \<and> lookup w (strip (stdin w)) = Some (Dir names)
        \<and> scan_directory (strip (stdin w)) names = [] \<longrightarrow>
      main lib w = (w, Inr []))"
proof (intro conjI allI impI)
  fix w' assume "\<not> colab w \<and> main lib w = (w', Inr [])"
  then show "fs w' = fs w" and "downloads w' = downloads w"
    using main_no_records_untouched[of lib w w'] by simp_all
next
  assume "\<not> colab w"
  then show "\<exists>w' recs. main lib w = (w', Inr recs)"
    by (rule main_local_returns)
next
  fix names
  assume "credentials_found w \<and> \<not> colab w
        \<and> lookup w (strip (stdin w)) = Some (Dir names)
        \<and> scan_directory (strip (stdin w)) names = []"
  then show "main lib w = (w, Inr [])"
    using main_local_directory[of w names lib] by simp
qed

theorem main_without_records_writes_nothing_witness:
  "credentials_found (sample_world\<lparr>stdin := ''docs''\<rparr>) \<and>
   \<not> colab (sample_world\<lparr>stdin := ''docs''\<rparr>) \<and>
   lookup (sample_world\<lparr>stdin := ''docs''\<rparr>) ''docs'' = Some (Dir [''readme.txt'']) \<and>
   scan_directory ''docs'' [''readme.txt''] = [] \<and>
   main sample_lib (sample_world\<lparr>stdin := ''docs''\<rparr>)
     = (sample_world\<lparr>stdin := ''docs''\<rparr>, Inr [])"
proof -
  let ?w = "sample_world\<lparr>stdin := ''docs''\<rparr>"
  have s: "strip (stdin ?w) = ''docs''"
    by (simp add: strip_def is_space_def)
  have 1: "credentials_found ?w"
    by (simp add: credentials_found_def path_exists_def sample_defs)
  have 2: "\<not> colab ?w" by (simp add: sample_world_def)
  have 3: "lookup ?w (strip (stdin ?w)) = Some (Dir [''readme.txt''])"
    unfolding s by (simp add: sample_defs)
  have 4: "scan_directory (strip (stdin ?w)) [''readme.txt''] = []"
    unfolding s
    by (simp add: scan_directory_def endswith_any_def IMAGE_EXTENSIONS_def endswith_def
        lower_def lower_char_def)
  note t = main_without_records_writes_nothing[where lib = sample_lib and w = ?w]
  from t[THEN conjunct2, THEN conjunct2, rule_format, of "[''readme.txt'']"] 1 2 3 4
  have "main sample_lib ?w = (?w, Inr [])" by blast
  with 1 2 3 4 s show ?thesis by simp
qed


end
